theory Spec2Isabelle
  imports Main "HOL-Library.AList"
begin

section \<open>The upstream chunk (ChatCompletionChunk)\<close>

text \<open>
  The chunk type is declared in \<^verbatim>\<open>services/copilot/create-chat-completions\<close>; the
  fields below are the ones the three stream translators read. Optional fields
  (\<^verbatim>\<open>undefined\<close> or \<^verbatim>\<open>null\<close>) are \<open>option\<close>s, token counts are integers.
\<close>

record FunctionDelta =
  fn_name :: "string option"
  fn_arguments :: "string option"

record ToolCallDelta =
  tc_index :: nat
  tc_id :: "string option"
  tc_function :: "FunctionDelta option"

record ChunkUsage =
  prompt_tokens :: int
  completion_tokens :: int
  total_tokens :: int
  prompt_tokens_details :: "int option"
    \<comment> \<open>\<open>Some n\<close>: the object \<^verbatim>\<open>{ cached_tokens: n }\<close>\<close>

record Delta =
  content :: "string option"
  tool_calls :: "ToolCallDelta list option"
  reasoning_text :: "string option"
  reasoning_opaque :: "string option"

record Choice =
  choice_index :: nat
  delta :: Delta
  finish_reason :: "string option"

record ChatCompletionChunk =
  chunk_id :: string
  chunk_model :: string
  created :: int
  choices :: "Choice list"
  chunk_usage :: "ChunkUsage option"

text \<open>JavaScript truthiness of an optional string: present and not empty.\<close>

fun truthy :: "string option \<Rightarrow> bool" where
  "truthy None = False"
| "truthy (Some []) = False"
| "truthy (Some (c # cs)) = True"

text \<open>\<^verbatim>\<open>toolCall.function?.name\<close> and \<^verbatim>\<open>toolCall.function?.arguments\<close>.\<close>

definition function_name :: "ToolCallDelta \<Rightarrow> string option" where
  "function_name tc = (case tc_function tc of None \<Rightarrow> None | Some f \<Rightarrow> fn_name f)"

definition function_arguments :: "ToolCallDelta \<Rightarrow> string option" where
  "function_arguments tc = (case tc_function tc of None \<Rightarrow> None | Some f \<Rightarrow> fn_arguments f)"

text \<open>\<^verbatim>\<open>x ?? ""\<close> on an optional string.\<close>

definition or_empty :: "string option \<Rightarrow> string" where
  "or_empty x = (case x of None \<Rightarrow> [] | Some v \<Rightarrow> v)"

section \<open>Response-API-style translator (routes/responses/stream-translation.ts)\<close>

datatype Status = Completed | Failed | InProgress | Incomplete

datatype IncompleteReason = MaxOutputTokens | ContentFilter

text \<open>An output_text content part; its annotations are always the empty array.\<close>

datatype OutputContentPart = OutputText string

text \<open>
  \<open>OutputMessage id status content\<close> (type "message", role "assistant") and
  \<open>FunctionCallOutput id call_id name arguments status\<close> (type "function_call").
\<close>

datatype OutputItem =
  OutputMessage string Status "OutputContentPart list"
| FunctionCallOutput string string string string Status

record ResponseUsage =
  input_tokens :: int
  input_tokens_details :: "int option"
  output_tokens :: int
  output_tokens_details :: "int option"
  usage_total_tokens :: int

text \<open>
  The aggregate response. \<open>request_echo\<close> stands for the request-level fields copied
  unchanged from the payload (temperature, top_p, max_output_tokens, tools, tool_choice,
  truncation, reasoning, metadata).
\<close>

record 'p ResponseAPIResponse =
  resp_id :: string
  status :: Status
  created_at :: int
  resp_model :: string
  resp_output :: "OutputItem list"
  output_text :: "string option"
  incomplete_details :: "IncompleteReason option"
  resp_usage :: ResponseUsage
  request_echo :: 'p

datatype 'p ResponseStreamEvent =
  OutputItemAdded nat OutputItem
| ContentPartAdded string nat nat OutputContentPart
| OutputTextDelta string nat nat string
| OutputTextDone string nat nat string
| FunctionCallArgumentsDelta string nat string
| FunctionCallArgumentsDone string nat string
| ContentPartDone string nat nat OutputContentPart
| OutputItemDone nat OutputItem
| ResponseCompleted "'p ResponseAPIResponse"
| ResponseIncomplete "'p ResponseAPIResponse"

record ToolInfo =
  ti_id :: string
  callId :: string
  ti_name :: string
  args :: string
  outputIndex :: nat

text \<open>
  The stream state. \<open>accumulatedToolCalls\<close> is a JavaScript \<^verbatim>\<open>Map\<close>: an association
  list in insertion order, written with \<open>AList.update\<close> (a present key keeps its place,
  a new key goes to the end) and read with \<open>map_of\<close>. \<open>randomHex\<close> is the supply of
  the values that \<^verbatim>\<open>randomBytes(12).toString("hex")\<close> returns on its successive calls.
\<close>

record 'p ResponseAPIStreamState =
  responseId :: string
  model :: string
  createdAt :: int
  messageStarted :: bool
  currentOutputIndex :: nat
  currentContentIndex :: nat
  messageItemId :: "string option"
  accumulatedText :: string
  totalAccumulatedText :: string
  accumulatedToolCalls :: "(nat \<times> ToolInfo) list"
  outputItems :: "OutputItem list"
  usage :: ResponseUsage
  payload :: 'p
  randomHex :: "nat \<Rightarrow> string"

definition generateResponseId :: "string \<Rightarrow> string" where
  "generateResponseId originalId =
     (if take 5 originalId = ''resp_'' then originalId else ''resp_'' @ originalId)"

definition generateItemId ::
  "string \<Rightarrow> 'p ResponseAPIStreamState \<Rightarrow> string \<times> 'p ResponseAPIStreamState" where
  "generateItemId prefix s =
     (prefix @ ''_'' @ randomHex s 0, s\<lparr>randomHex := (\<lambda>n. randomHex s (Suc n))\<rparr>)"

definition mapFinishReasonToStatus :: "string option \<Rightarrow> Status" where
  "mapFinishReasonToStatus finishReason =
     (if \<not> truthy finishReason then InProgress
      else if finishReason = Some ''stop'' \<or> finishReason = Some ''tool_calls'' then Completed
      else if finishReason = Some ''length'' then Incomplete
      else if finishReason = Some ''content_filter'' then Incomplete
      else Completed)"

definition parseUsage :: "ChunkUsage \<Rightarrow> ResponseUsage" where
  "parseUsage u =
     \<lparr>input_tokens = prompt_tokens u,
      input_tokens_details =
        (case prompt_tokens_details u of
           None \<Rightarrow> None
         | Some n \<Rightarrow> if n \<noteq> 0 then Some n else None),
      output_tokens = completion_tokens u,
      output_tokens_details = None,
      usage_total_tokens = total_tokens u\<rparr>"

definition updateUsageFromChunk ::
  "'p ResponseAPIStreamState \<Rightarrow> ChatCompletionChunk \<Rightarrow> 'p ResponseAPIStreamState" where
  "updateUsageFromChunk s chunk =
     (case chunk_usage chunk of
        None \<Rightarrow> s
      | Some u \<Rightarrow> s\<lparr>usage := parseUsage u\<rparr>)"

definition buildResponseObject ::
  "'p ResponseAPIStreamState \<Rightarrow> Status \<Rightarrow> IncompleteReason option \<Rightarrow> 'p ResponseAPIResponse" where
  "buildResponseObject s st incompleteDetails =
     \<lparr>resp_id = responseId s,
      status = st,
      created_at = createdAt s,
      resp_model = model s,
      resp_output = outputItems s,
      output_text = (if totalAccumulatedText s \<noteq> [] then Some (totalAccumulatedText s) else None),
      incomplete_details = incompleteDetails,
      resp_usage = usage s,
      request_echo = payload s\<rparr>"

definition buildInitialResponse :: "'p ResponseAPIStreamState \<Rightarrow> 'p ResponseAPIResponse" where
  "buildInitialResponse s = buildResponseObject s InProgress None"

definition buildFinalResponse ::
  "'p ResponseAPIStreamState \<Rightarrow> string \<Rightarrow> 'p ResponseAPIResponse" where
  "buildFinalResponse s finishReason =
     buildResponseObject s (mapFinishReasonToStatus (Some finishReason))
       (if finishReason = ''length'' then Some MaxOutputTokens else None)"

definition createStreamState ::
  "'p \<Rightarrow> ChatCompletionChunk \<Rightarrow> (nat \<Rightarrow> string) \<Rightarrow> 'p ResponseAPIStreamState" where
  "createStreamState pl initialChunk rnd =
     (let (rid, rnd') =
            (if chunk_id initialChunk \<noteq> [] then (generateResponseId (chunk_id initialChunk), rnd)
             else (''resp_'' @ rnd 0, (\<lambda>n. rnd (Suc n))))
      in \<lparr>responseId = rid,
          model = chunk_model initialChunk,
          createdAt = created initialChunk,
          messageStarted = False,
          currentOutputIndex = 0,
          currentContentIndex = 0,
          messageItemId = None,
          accumulatedText = [],
          totalAccumulatedText = [],
          accumulatedToolCalls = [],
          outputItems = [],
          usage = \<lparr>input_tokens = 0, input_tokens_details = None, output_tokens = 0,
                    output_tokens_details = None, usage_total_tokens = 0\<rparr>,
          payload = pl,
          randomHex = rnd'\<rparr>)"

definition startTextMessage ::
  "'p ResponseAPIStreamState \<Rightarrow> 'p ResponseStreamEvent list \<times> 'p ResponseAPIStreamState" where
  "startTextMessage s =
     (let (mid, s1) = generateItemId ''msg'' s;
          s2 = s1\<lparr>messageItemId := Some mid, messageStarted := True\<rparr>
      in ([OutputItemAdded (currentOutputIndex s2) (OutputMessage mid InProgress [OutputText []]),
           ContentPartAdded mid (currentOutputIndex s2) (currentContentIndex s2) (OutputText [])],
          s2))"

definition handleTextDelta ::
  "'p ResponseAPIStreamState \<Rightarrow> string \<Rightarrow>
   'p ResponseStreamEvent list \<times> 'p ResponseAPIStreamState" where
  "handleTextDelta s txt =
     (let (ev, s1) = (if \<not> messageStarted s then startTextMessage s else ([], s));
          itemId = or_empty (messageItemId s1)
      in (ev @ [OutputTextDelta itemId (currentOutputIndex s1) (currentContentIndex s1) txt],
          s1\<lparr>accumulatedText := accumulatedText s1 @ txt,
             totalAccumulatedText := totalAccumulatedText s1 @ txt\<rparr>))"

definition closeTextMessage ::
  "'p ResponseAPIStreamState \<Rightarrow> 'p ResponseStreamEvent list \<times> 'p ResponseAPIStreamState" where
  "closeTextMessage s =
     (let itemId = or_empty (messageItemId s);
          completedMessage = OutputMessage itemId Completed [OutputText (accumulatedText s)]
      in ([OutputTextDone itemId (currentOutputIndex s) (currentContentIndex s) (accumulatedText s),
           ContentPartDone itemId (currentOutputIndex s) (currentContentIndex s)
             (OutputText (accumulatedText s)),
           OutputItemDone (currentOutputIndex s) completedMessage],
          s\<lparr>outputItems := outputItems s @ [completedMessage],
            currentOutputIndex := currentOutputIndex s + 1,
            messageStarted := False,
            accumulatedText := []\<rparr>))"

definition startToolCall ::
  "'p ResponseAPIStreamState \<Rightarrow> ToolCallDelta \<Rightarrow>
   'p ResponseStreamEvent list \<times> 'p ResponseAPIStreamState" where
  "startToolCall s toolCall =
     (let (ev, s1) = (if messageStarted s then closeTextMessage s else ([], s));
          toolOutputIndex = currentOutputIndex s1;
          (fcid, s2) = generateItemId ''fc'' s1;
          toolItem = FunctionCallOutput fcid (or_empty (tc_id toolCall))
                       (or_empty (function_name toolCall)) [] InProgress
      in (ev @ [OutputItemAdded toolOutputIndex toolItem],
          s2\<lparr>accumulatedToolCalls :=
                AList.update (tc_index toolCall)
                  \<lparr>ti_id = fcid, callId = or_empty (tc_id toolCall),
                   ti_name = or_empty (function_name toolCall), args = [],
                   outputIndex = toolOutputIndex\<rparr>
                  (accumulatedToolCalls s2),
             currentOutputIndex := currentOutputIndex s2 + 1\<rparr>))"

definition appendToolArguments ::
  "'p ResponseAPIStreamState \<Rightarrow> ToolCallDelta \<Rightarrow>
   'p ResponseStreamEvent list \<times> 'p ResponseAPIStreamState" where
  "appendToolArguments s toolCall =
     (case map_of (accumulatedToolCalls s) (tc_index toolCall) of
        None \<Rightarrow> ([], s)
      | Some toolInfo \<Rightarrow>
          if \<not> truthy (function_arguments toolCall) then ([], s)
          else
            ([FunctionCallArgumentsDelta (ti_id toolInfo) (outputIndex toolInfo)
                (or_empty (function_arguments toolCall))],
             s\<lparr>accumulatedToolCalls :=
                  AList.update (tc_index toolCall)
                    (toolInfo\<lparr>args := args toolInfo @ or_empty (function_arguments toolCall)\<rparr>)
                    (accumulatedToolCalls s)\<rparr>))"

text \<open>The body of the loop of \<^verbatim>\<open>handleToolCalls\<close>, for one fragment.\<close>

definition handleToolCall ::
  "'p ResponseAPIStreamState \<Rightarrow> ToolCallDelta \<Rightarrow>
   'p ResponseStreamEvent list \<times> 'p ResponseAPIStreamState" where
  "handleToolCall s toolCall =
     (let (ev1, s1) =
            (if truthy (tc_id toolCall) \<and> truthy (function_name toolCall)
             then startToolCall s toolCall else ([], s));
          (ev2, s2) =
            (if truthy (function_arguments toolCall)
             then appendToolArguments s1 toolCall else ([], s1))
      in (ev1 @ ev2, s2))"

fun handleToolCalls ::
  "'p ResponseAPIStreamState \<Rightarrow> ToolCallDelta list \<Rightarrow>
   'p ResponseStreamEvent list \<times> 'p ResponseAPIStreamState" where
  "handleToolCalls s [] = ([], s)"
| "handleToolCalls s (toolCall # rest) =
     (let (ev, s1) = handleToolCall s toolCall;
          (evs, s2) = handleToolCalls s1 rest
      in (ev @ evs, s2))"

definition completedToolCall :: "ToolInfo \<Rightarrow> OutputItem" where
  "completedToolCall toolInfo =
     FunctionCallOutput (ti_id toolInfo) (callId toolInfo) (ti_name toolInfo) (args toolInfo)
       Completed"

definition completeToolCalls ::
  "'p ResponseAPIStreamState \<Rightarrow> 'p ResponseStreamEvent list \<times> 'p ResponseAPIStreamState" where
  "completeToolCalls s =
     (concat (map (\<lambda>(slot, toolInfo).
                [FunctionCallArgumentsDone (ti_id toolInfo) (outputIndex toolInfo) (args toolInfo),
                 OutputItemDone (outputIndex toolInfo) (completedToolCall toolInfo)])
              (accumulatedToolCalls s)),
      s\<lparr>outputItems := outputItems s @ map (\<lambda>(slot, toolInfo). completedToolCall toolInfo)
                                          (accumulatedToolCalls s)\<rparr>)"

definition handleFinish ::
  "'p ResponseAPIStreamState \<Rightarrow> ChatCompletionChunk \<Rightarrow> string \<Rightarrow>
   'p ResponseStreamEvent list \<times> 'p ResponseAPIStreamState" where
  "handleFinish s chunk finishReason =
     (let (ev1, s1) = (if messageStarted s then closeTextMessage s else ([], s));
          (ev2, s2) = completeToolCalls s1;
          s3 = updateUsageFromChunk s2 chunk;
          finalResponse = buildFinalResponse s3 finishReason
      in (ev1 @ ev2 @
          [if finishReason = ''length'' then ResponseIncomplete finalResponse
           else ResponseCompleted finalResponse],
          s3))"

definition translateChunkToEvents ::
  "ChatCompletionChunk \<Rightarrow> 'p ResponseAPIStreamState \<Rightarrow>
   'p ResponseStreamEvent list \<times> 'p ResponseAPIStreamState" where
  "translateChunkToEvents chunk s =
     (case choices chunk of
        [] \<Rightarrow> ([], updateUsageFromChunk s chunk)
      | choice # others \<Rightarrow>
          (let (ev1, s1) =
                 (if truthy (content (delta choice))
                  then handleTextDelta s (or_empty (content (delta choice))) else ([], s));
               (ev2, s2) =
                 (case tool_calls (delta choice) of
                    None \<Rightarrow> ([], s1)
                  | Some tcs \<Rightarrow> handleToolCalls s1 tcs);
               (ev3, s3) =
                 (if truthy (finish_reason choice)
                  then handleFinish s2 chunk (or_empty (finish_reason choice)) else ([], s2))
           in (ev1 @ ev2 @ ev3, s3)))"

section \<open>Anthropic-style translator (routes/messages/stream-translation.ts)\<close>

datatype BlockType = Text | Thinking | Tool

datatype AnthropicDelta =
  TextDelta string
| ThinkingDelta string
| SignatureDelta string
| InputJsonDelta string

text \<open>
  \<open>TextBlock text\<close>, \<open>ThinkingBlock thinking\<close> and \<open>ToolUseBlock id name\<close> (its input is
  always the empty object).
\<close>

datatype AnthropicContentBlock =
  TextBlock string
| ThinkingBlock string
| ToolUseBlock string string

record AnthropicUsage =
  a_input_tokens :: int
  a_output_tokens :: int
  cache_read_input_tokens :: "int option"

text \<open>
  \<open>MessageStart id model usage\<close> (role "assistant", empty content, no stop reason),
  \<open>MessageDelta stop_reason usage\<close> (stop_sequence null).
\<close>

datatype AnthropicStreamEventData =
  MessageStart string string AnthropicUsage
| ContentBlockStart nat AnthropicContentBlock
| ContentBlockDelta nat AnthropicDelta
| ContentBlockStop nat
| MessageDelta "string option" AnthropicUsage
| MessageStop

record AnthropicToolCall =
  atc_id :: string
  atc_name :: string
  anthropicBlockIndex :: nat

text \<open>
  The stream state, as the handler creates it and the translator uses it.
  \<open>contentBlockType\<close> is \<open>None\<close> for \<^verbatim>\<open>null\<close> and for the missing field of the
  initial state; \<open>toolCalls\<close> is an object keyed by the upstream slot number.
\<close>

record AnthropicStreamState =
  messageStartSent :: bool
  contentBlockIndex :: nat
  contentBlockOpen :: bool
  contentBlockType :: "BlockType option"
  accumulatedReasoningOpaque :: "string option"
  toolCalls :: "nat \<rightharpoonup> AnthropicToolCall"

text \<open>The state the handler (routes/messages/handler.ts) creates for a stream.\<close>

definition initialAnthropicStreamState :: AnthropicStreamState where
  "initialAnthropicStreamState =
     \<lparr>messageStartSent = False, contentBlockIndex = 0, contentBlockOpen = False,
      contentBlockType = None, accumulatedReasoningOpaque = None, toolCalls = Map.empty\<rparr>"

definition mapOpenAIStopReasonToAnthropic :: "string option \<Rightarrow> string option" where
  "mapOpenAIStopReasonToAnthropic finishReason =
     (case finishReason of
        None \<Rightarrow> None
      | Some r \<Rightarrow>
          if r = ''stop'' then Some ''end_turn''
          else if r = ''length'' then Some ''max_tokens''
          else if r = ''tool_calls'' then Some ''tool_use''
          else if r = ''content_filter'' then Some ''end_turn''
          else None)"

text \<open>
  The usage object written into message_start and message_delta:
  \<^verbatim>\<open>(chunk.usage?.prompt_tokens ?? 0) - (chunk.usage?.prompt_tokens_details?.cached_tokens ?? 0)\<close>
  input tokens, the given output tokens, and the cached tokens when they are defined.
\<close>

definition cached_tokens :: "ChatCompletionChunk \<Rightarrow> int option" where
  "cached_tokens chunk =
     (case chunk_usage chunk of None \<Rightarrow> None | Some u \<Rightarrow> prompt_tokens_details u)"

definition anthropicUsage :: "ChatCompletionChunk \<Rightarrow> int \<Rightarrow> AnthropicUsage" where
  "anthropicUsage chunk out =
     \<lparr>a_input_tokens =
        (case chunk_usage chunk of None \<Rightarrow> 0 | Some u \<Rightarrow> prompt_tokens u)
        - (case cached_tokens chunk of None \<Rightarrow> 0 | Some n \<Rightarrow> n),
      a_output_tokens = out,
      cache_read_input_tokens = cached_tokens chunk\<rparr>"

text \<open>
  \<^verbatim>\<open>closeCurrentBlock(state, events)\<close> pushes onto the caller's event array; the model
  returns the events pushed.
\<close>

definition closeCurrentBlock ::
  "AnthropicStreamState \<Rightarrow> AnthropicStreamEventData list \<times> AnthropicStreamState" where
  "closeCurrentBlock s =
     (if \<not> contentBlockOpen s then ([], s)
      else
        (let (ev, s1) =
               (if contentBlockType s = Some Thinking \<and> truthy (accumulatedReasoningOpaque s)
                then ([ContentBlockDelta (contentBlockIndex s)
                         (SignatureDelta (or_empty (accumulatedReasoningOpaque s)))],
                      s\<lparr>accumulatedReasoningOpaque := None\<rparr>)
                else ([], s))
         in (ev @ [ContentBlockStop (contentBlockIndex s1)],
             s1\<lparr>contentBlockIndex := contentBlockIndex s1 + 1,
                contentBlockOpen := False,
                contentBlockType := None\<rparr>)))"

text \<open>
  The parts of \<^verbatim>\<open>translateChunkToAnthropicEvents\<close>, in the order of the source: the lazy
  message_start, 1. reasoning, 2. content, 3. tool calls (one fragment, then the loop),
  and the finish.
\<close>

definition anthropic_message_start ::
  "ChatCompletionChunk \<Rightarrow> AnthropicStreamState \<Rightarrow>
   AnthropicStreamEventData list \<times> AnthropicStreamState" where
  "anthropic_message_start chunk s =
     (if \<not> messageStartSent s
      then ([MessageStart (chunk_id chunk) (chunk_model chunk) (anthropicUsage chunk 0)],
            s\<lparr>messageStartSent := True\<rparr>)
      else ([], s))"

definition anthropic_reasoning ::
  "Delta \<Rightarrow> AnthropicStreamState \<Rightarrow> AnthropicStreamEventData list \<times> AnthropicStreamState" where
  "anthropic_reasoning d s =
     (if truthy (reasoning_text d) \<or> truthy (reasoning_opaque d) then
        (let (ev1, s1) =
               (if contentBlockType s \<noteq> Some Thinking then
                  (let (ev, s') = closeCurrentBlock s
                   in (ev @ [ContentBlockStart (contentBlockIndex s') (ThinkingBlock [])],
                       s'\<lparr>contentBlockOpen := True, contentBlockType := Some Thinking\<rparr>))
                else ([], s));
             ev2 =
               (if truthy (reasoning_text d)
                then [ContentBlockDelta (contentBlockIndex s1)
                        (ThinkingDelta (or_empty (reasoning_text d)))]
                else []);
             s2 =
               (if truthy (reasoning_opaque d)
                then s1\<lparr>accumulatedReasoningOpaque :=
                          Some (or_empty (accumulatedReasoningOpaque s1)
                                @ or_empty (reasoning_opaque d))\<rparr>
                else s1)
         in (ev1 @ ev2, s2))
      else ([], s))"

definition anthropic_content ::
  "Delta \<Rightarrow> AnthropicStreamState \<Rightarrow> AnthropicStreamEventData list \<times> AnthropicStreamState" where
  "anthropic_content d s =
     (if truthy (content d) then
        (let (ev1, s1) =
               (if contentBlockType s = Some Thinking then closeCurrentBlock s else ([], s));
             (ev2, s2) =
               (if contentBlockType s1 = Some Tool then closeCurrentBlock s1 else ([], s1));
             (ev3, s3) =
               (if \<not> contentBlockOpen s2
                then ([ContentBlockStart (contentBlockIndex s2) (TextBlock [])],
                      s2\<lparr>contentBlockOpen := True, contentBlockType := Some Text\<rparr>)
                else ([], s2))
         in (ev1 @ ev2 @ ev3 @
             [ContentBlockDelta (contentBlockIndex s3) (TextDelta (or_empty (content d)))],
             s3))
      else ([], s))"

definition anthropic_tool_call ::
  "ToolCallDelta \<Rightarrow> AnthropicStreamState \<Rightarrow>
   AnthropicStreamEventData list \<times> AnthropicStreamState" where
  "anthropic_tool_call toolCall s =
     (let (ev1, s1) =
            (if truthy (tc_id toolCall) \<and> truthy (function_name toolCall) then
               (let (ev, s') = (if contentBlockOpen s then closeCurrentBlock s else ([], s));
                    blockIndex = contentBlockIndex s'
                in (ev @ [ContentBlockStart blockIndex
                            (ToolUseBlock (or_empty (tc_id toolCall))
                               (or_empty (function_name toolCall)))],
                    s'\<lparr>toolCalls :=
                         (toolCalls s')(tc_index toolCall \<mapsto>
                            \<lparr>atc_id = or_empty (tc_id toolCall),
                             atc_name = or_empty (function_name toolCall),
                             anthropicBlockIndex = blockIndex\<rparr>),
                       contentBlockOpen := True,
                       contentBlockType := Some Tool\<rparr>))
             else ([], s));
          ev2 =
            (if truthy (function_arguments toolCall) then
               (case toolCalls s1 (tc_index toolCall) of
                  None \<Rightarrow> []
                | Some toolCallInfo \<Rightarrow>
                    [ContentBlockDelta (anthropicBlockIndex toolCallInfo)
                       (InputJsonDelta (or_empty (function_arguments toolCall)))])
             else [])
      in (ev1 @ ev2, s1))"

fun anthropic_tool_calls ::
  "ToolCallDelta list \<Rightarrow> AnthropicStreamState \<Rightarrow>
   AnthropicStreamEventData list \<times> AnthropicStreamState" where
  "anthropic_tool_calls [] s = ([], s)"
| "anthropic_tool_calls (toolCall # rest) s =
     (let (ev, s1) = anthropic_tool_call toolCall s;
          (evs, s2) = anthropic_tool_calls rest s1
      in (ev @ evs, s2))"

definition anthropic_finish ::
  "ChatCompletionChunk \<Rightarrow> Choice \<Rightarrow> AnthropicStreamState \<Rightarrow>
   AnthropicStreamEventData list \<times> AnthropicStreamState" where
  "anthropic_finish chunk choice s =
     (if truthy (finish_reason choice) then
        (let (ev, s1) = (if contentBlockOpen s then closeCurrentBlock s else ([], s))
         in (ev @
             [MessageDelta (mapOpenAIStopReasonToAnthropic (finish_reason choice))
                (anthropicUsage chunk
                   (case chunk_usage chunk of None \<Rightarrow> 0 | Some u \<Rightarrow> completion_tokens u)),
              MessageStop],
             s1))
      else ([], s))"

definition translateChunkToAnthropicEvents ::
  "ChatCompletionChunk \<Rightarrow> AnthropicStreamState \<Rightarrow>
   AnthropicStreamEventData list \<times> AnthropicStreamState" where
  "translateChunkToAnthropicEvents chunk s =
     (case choices chunk of
        [] \<Rightarrow> ([], s)
      | choice # others \<Rightarrow>
          (let (ev0, s0) = anthropic_message_start chunk s;
               (ev1, s1) = anthropic_reasoning (delta choice) s0;
               (ev2, s2) = anthropic_content (delta choice) s1;
               (ev3, s3) =
                 (case tool_calls (delta choice) of
                    None \<Rightarrow> ([], s2)
                  | Some tcs \<Rightarrow> anthropic_tool_calls tcs s2);
               (ev4, s4) = anthropic_finish chunk choice s3
           in (ev0 @ ev1 @ ev2 @ ev3 @ ev4, s4)))"

section \<open>Gemini-style translator (routes/gemini/stream-translation.ts)\<close>

datatype GeminiFinishReason = FINISH_REASON_UNSPECIFIED | STOP | MAX_TOKENS | SAFETY | OTHER

text \<open>
  A part is a text or a function call \<open>FunctionCallPart id name args\<close>; \<open>'j\<close> is the type of
  parsed JSON values.
\<close>

datatype 'j GeminiPart =
  TextPart string
| FunctionCallPart string string 'j

record GeminiUsageMetadata =
  promptTokenCount :: int
  candidatesTokenCount :: int
  totalTokenCount :: int
  cachedContentTokenCount :: "int option"

text \<open>A candidate; its content, when present, has role "model" and the parts given.\<close>

record 'j GeminiCandidate =
  cand_content :: "'j GeminiPart list option"
  cand_finishReason :: "GeminiFinishReason option"
  cand_index :: nat

record 'j GeminiGenerateContentResponse =
  candidates :: "'j GeminiCandidate list"
  usageMetadata :: "GeminiUsageMetadata option"
  modelVersion :: "string option"

record AccumulatedFunctionCall =
  fc_id :: string
  fc_name :: string
  fc_args :: string

record GeminiStreamState =
  accumulatedFunctionCalls :: "(nat \<times> AccumulatedFunctionCall) list"
  gemini_model :: string

definition createStreamState_gemini :: "string \<Rightarrow> GeminiStreamState" where
  "createStreamState_gemini m = \<lparr>accumulatedFunctionCalls = [], gemini_model = m\<rparr>"

definition mapOpenAIFinishReasonToGemini :: "string option \<Rightarrow> GeminiFinishReason" where
  "mapOpenAIFinishReasonToGemini finishReason =
     (if \<not> truthy finishReason then FINISH_REASON_UNSPECIFIED
      else if finishReason = Some ''stop'' then STOP
      else if finishReason = Some ''length'' then MAX_TOKENS
      else if finishReason = Some ''tool_calls'' then STOP
      else if finishReason = Some ''content_filter'' then SAFETY
      else OTHER)"

definition buildTextParts :: "string option \<Rightarrow> 'j GeminiPart list" where
  "buildTextParts c = (if \<not> truthy c then [] else [TextPart (or_empty c)])"

text \<open>The body of the loop of \<^verbatim>\<open>accumulateToolCalls\<close>, for one fragment.\<close>

definition accumulateToolCall :: "ToolCallDelta \<Rightarrow> GeminiStreamState \<Rightarrow> GeminiStreamState" where
  "accumulateToolCall toolCall s =
     (if truthy (tc_id toolCall) \<and> truthy (function_name toolCall) then
        s\<lparr>accumulatedFunctionCalls :=
            AList.update (tc_index toolCall)
              \<lparr>fc_id = or_empty (tc_id toolCall),
               fc_name = or_empty (function_name toolCall),
               fc_args = or_empty (function_arguments toolCall)\<rparr>
              (accumulatedFunctionCalls s)\<rparr>
      else if truthy (function_arguments toolCall) then
        (case map_of (accumulatedFunctionCalls s) (tc_index toolCall) of
           None \<Rightarrow> s
         | Some existing \<Rightarrow>
             s\<lparr>accumulatedFunctionCalls :=
                 AList.update (tc_index toolCall)
                   (existing\<lparr>fc_args := fc_args existing @ or_empty (function_arguments toolCall)\<rparr>)
                   (accumulatedFunctionCalls s)\<rparr>)
      else s)"

definition accumulateToolCalls ::
  "ToolCallDelta list option \<Rightarrow> GeminiStreamState \<Rightarrow> GeminiStreamState" where
  "accumulateToolCalls tcs s =
     (case tcs of
        None \<Rightarrow> s
      | Some l \<Rightarrow> fold accumulateToolCall l s)"

definition buildUsageMetadata :: "ChatCompletionChunk \<Rightarrow> GeminiUsageMetadata" where
  "buildUsageMetadata chunk =
     \<lparr>promptTokenCount = (case chunk_usage chunk of None \<Rightarrow> 0 | Some u \<Rightarrow> prompt_tokens u),
      candidatesTokenCount =
        (case chunk_usage chunk of None \<Rightarrow> 0 | Some u \<Rightarrow> completion_tokens u),
      totalTokenCount = (case chunk_usage chunk of None \<Rightarrow> 0 | Some u \<Rightarrow> total_tokens u),
      cachedContentTokenCount = cached_tokens chunk\<rparr>"

text \<open>
  \<^verbatim>\<open>JSON.parse\<close> is a parameter: \<open>jsonParse x = None\<close> when it throws. \<open>emptyObject\<close> is
  the value \<^verbatim>\<open>{}\<close>.
\<close>

definition parseToolCallArgs :: "(string \<Rightarrow> 'j option) \<Rightarrow> 'j \<Rightarrow> string \<Rightarrow> 'j" where
  "parseToolCallArgs jsonParse emptyObject a =
     (case jsonParse a of Some v \<Rightarrow> v | None \<Rightarrow> emptyObject)"

definition buildFunctionCallResponse ::
  "(string \<Rightarrow> 'j option) \<Rightarrow> 'j \<Rightarrow> GeminiFinishReason \<Rightarrow> GeminiUsageMetadata \<Rightarrow>
   GeminiStreamState \<Rightarrow> 'j GeminiGenerateContentResponse" where
  "buildFunctionCallResponse jsonParse emptyObject finishReason usg s =
     \<lparr>candidates =
        [\<lparr>cand_content =
            Some (map (\<lambda>(slot, fc).
                    FunctionCallPart (fc_id fc) (fc_name fc)
                      (parseToolCallArgs jsonParse emptyObject (fc_args fc)))
                  (accumulatedFunctionCalls s)),
          cand_finishReason = Some finishReason,
          cand_index = 0\<rparr>],
      usageMetadata = Some usg,
      modelVersion = Some (gemini_model s)\<rparr>"

definition buildTextResponse ::
  "'j GeminiPart list \<Rightarrow> GeminiFinishReason \<Rightarrow> GeminiUsageMetadata \<Rightarrow> string \<Rightarrow>
   'j GeminiGenerateContentResponse" where
  "buildTextResponse parts finishReason usg m =
     \<lparr>candidates =
        [\<lparr>cand_content = (if length parts > 0 then Some parts else None),
          cand_finishReason = Some finishReason,
          cand_index = 0\<rparr>],
      usageMetadata = Some usg,
      modelVersion = Some m\<rparr>"

definition buildContentChunk ::
  "'j GeminiPart list \<Rightarrow> 'j GeminiGenerateContentResponse option" where
  "buildContentChunk parts =
     (if length parts = 0 then None
      else Some \<lparr>candidates =
                   [\<lparr>cand_content = Some parts, cand_finishReason = None, cand_index = 0\<rparr>],
                 usageMetadata = None,
                 modelVersion = None\<rparr>)"

definition buildFinalChunk ::
  "(string \<Rightarrow> 'j option) \<Rightarrow> 'j \<Rightarrow> string \<Rightarrow> 'j GeminiPart list \<Rightarrow> ChatCompletionChunk \<Rightarrow>
   GeminiStreamState \<Rightarrow> 'j GeminiGenerateContentResponse" where
  "buildFinalChunk jsonParse emptyObject finishReason textParts chunk s =
     (let usg = buildUsageMetadata chunk;
          geminiFinishReason = mapOpenAIFinishReasonToGemini (Some finishReason)
      in if length (accumulatedFunctionCalls s) > 0
         then buildFunctionCallResponse jsonParse emptyObject geminiFinishReason usg s
         else buildTextResponse textParts geminiFinishReason usg (gemini_model s))"

definition translateChunkToGeminiResponse ::
  "(string \<Rightarrow> 'j option) \<Rightarrow> 'j \<Rightarrow> ChatCompletionChunk \<Rightarrow> GeminiStreamState \<Rightarrow>
   'j GeminiGenerateContentResponse option \<times> GeminiStreamState" where
  "translateChunkToGeminiResponse jsonParse emptyObject chunk s =
     (case choices chunk of
        [] \<Rightarrow> (None, s)
      | choice # others \<Rightarrow>
          (let textParts = buildTextParts (content (delta choice));
               s1 = accumulateToolCalls (tool_calls (delta choice)) s
           in if truthy (finish_reason choice)
              then (Some (buildFinalChunk jsonParse emptyObject (or_empty (finish_reason choice))
                            textParts chunk s1), s1)
              else (buildContentChunk textParts, s1)))"

section \<open>The handlers' loops\<close>

text \<open>
  Each handler calls its translator on the chunks of the stream in arrival order, with the
  one state of the connection, and writes the events of each chunk in order.
\<close>

fun translateChunks ::
  "ChatCompletionChunk list \<Rightarrow> 'p ResponseAPIStreamState \<Rightarrow>
   'p ResponseStreamEvent list \<times> 'p ResponseAPIStreamState" where
  "translateChunks [] s = ([], s)"
| "translateChunks (chunk # rest) s =
     (let (ev, s1) = translateChunkToEvents chunk s;
          (evs, s2) = translateChunks rest s1
      in (ev @ evs, s2))"

fun translateAnthropicChunks ::
  "ChatCompletionChunk list \<Rightarrow> AnthropicStreamState \<Rightarrow>
   AnthropicStreamEventData list \<times> AnthropicStreamState" where
  "translateAnthropicChunks [] s = ([], s)"
| "translateAnthropicChunks (chunk # rest) s =
     (let (ev, s1) = translateChunkToAnthropicEvents chunk s;
          (evs, s2) = translateAnthropicChunks rest s1
      in (ev @ evs, s2))"

section \<open>Predicates and example inputs used by the properties\<close>

text \<open>The part is a functionCall part.\<close>

fun isFunctionCallPart :: "'j GeminiPart \<Rightarrow> bool" where
  "isFunctionCallPart (FunctionCallPart i n a) = True"
| "isFunctionCallPart (TextPart t) = False"

text \<open>All parts of all candidates of a Gemini response.\<close>

definition response_parts :: "'j GeminiGenerateContentResponse \<Rightarrow> 'j GeminiPart list" where
  "response_parts r =
     concat (map (\<lambda>c. case cand_content c of None \<Rightarrow> [] | Some ps \<Rightarrow> ps) (candidates r))"

text \<open>The chunk and the state of the repository's stream-translation test.\<close>

definition exampleChunk :: ChatCompletionChunk where
  "exampleChunk =
     \<lparr>chunk_id = ''test-id'', chunk_model = ''gpt-4'', created = 1234567890, choices = [],
      chunk_usage = None\<rparr>"

definition exampleRandomHex :: "nat \<Rightarrow> string" where
  "exampleRandomHex n =
     (if n = 0 then ''aaaaaaaaaaaaaaaaaaaaaaaa'' else ''bbbbbbbbbbbbbbbbbbbbbbbb'')"

definition exampleState :: "unit ResponseAPIStreamState" where
  "exampleState = createStreamState () exampleChunk exampleRandomHex"

definition emptyDelta :: Delta where
  "emptyDelta =
     \<lparr>content = None, tool_calls = None, reasoning_text = None, reasoning_opaque = None\<rparr>"

definition textChoice :: "string \<Rightarrow> Choice" where
  "textChoice t =
     \<lparr>choice_index = 0, delta = emptyDelta\<lparr>content := Some t\<rparr>, finish_reason = None\<rparr>"

definition finishChoice :: "string \<Rightarrow> Choice" where
  "finishChoice r = \<lparr>choice_index = 0, delta = emptyDelta, finish_reason = Some r\<rparr>"

definition argumentsFragment :: ToolCallDelta where
  "argumentsFragment =
     \<lparr>tc_index = 0, tc_id = None,
      tc_function = Some \<lparr>fn_name = None, fn_arguments = Some ''{}''\<rparr>\<rparr>"

definition startFragment :: ToolCallDelta where
  "startFragment =
     \<lparr>tc_index = 0, tc_id = Some ''call_1'',
      tc_function = Some \<lparr>fn_name = Some ''get_weather'', fn_arguments = None\<rparr>\<rparr>"

definition exampleGeminiState :: GeminiStreamState where
  "exampleGeminiState =
     accumulateToolCall startFragment (createStreamState_gemini ''gemini-2.5-pro'')"

definition finishChunk :: "string \<Rightarrow> ChatCompletionChunk" where
  "finishChunk r = exampleChunk\<lparr>choices := [finishChoice r]\<rparr>"

definition textChunk :: "string \<Rightarrow> ChatCompletionChunk" where
  "textChunk t = exampleChunk\<lparr>choices := [textChoice t]\<rparr>"

text \<open>The state the test forces: a text block is open and no text has arrived.\<close>

definition openEmptyState :: "unit ResponseAPIStreamState" where
  "openEmptyState = exampleState\<lparr>messageStarted := True, accumulatedText := []\<rparr>"

text \<open>The tool-call chunk of the test, and chunks that carry reasoning.\<close>

definition toolChunk :: ChatCompletionChunk where
  "toolChunk =
     exampleChunk\<lparr>choices :=
       [\<lparr>choice_index = 0,
         delta = emptyDelta\<lparr>tool_calls :=
           Some [\<lparr>tc_index = 0, tc_id = Some ''call_1'',
                  tc_function = Some \<lparr>fn_name = Some ''test_tool'',
                                      fn_arguments = Some ''{}''\<rparr>\<rparr>]\<rparr>,
         finish_reason = None\<rparr>]\<rparr>"

definition reasoningChunk :: "string option \<Rightarrow> string option \<Rightarrow> ChatCompletionChunk" where
  "reasoningChunk t sg =
     exampleChunk\<lparr>choices :=
       [\<lparr>choice_index = 0,
         delta = emptyDelta\<lparr>reasoning_text := t, reasoning_opaque := sg\<rparr>,
         finish_reason = None\<rparr>]\<rparr>"

definition openTextBlockState :: AnthropicStreamState where
  "openTextBlockState =
     snd (translateChunkToAnthropicEvents (textChunk ''Hello'') initialAnthropicStreamState)"

text \<open>A thinking block is open and a signature fragment has arrived.\<close>

definition thinkingState :: AnthropicStreamState where
  "thinkingState =
     snd (translateAnthropicChunks
            [reasoningChunk (Some ''Let me think'') None, reasoningChunk None (Some ''c2ln'')]
            initialAnthropicStreamState)"

text \<open>The state after the text "Hello" has arrived.\<close>

definition helloState :: "unit ResponseAPIStreamState" where
  "helloState = snd (translateChunkToEvents (textChunk ''Hello'') exampleState)"

text \<open>A chunk whose only content is the start of a tool call on slot 0, without arguments.\<close>

definition startChunk :: "string \<Rightarrow> string \<Rightarrow> ChatCompletionChunk" where
  "startChunk callIdent fname =
     exampleChunk\<lparr>choices :=
       [\<lparr>choice_index = 0,
         delta = emptyDelta\<lparr>tool_calls :=
           Some [\<lparr>tc_index = 0, tc_id = Some callIdent,
                  tc_function = Some \<lparr>fn_name = Some fname, fn_arguments = None\<rparr>\<rparr>]\<rparr>,
         finish_reason = None\<rparr>]\<rparr>"

text \<open>The response-level events that end a stream, and the status their response carries.\<close>

fun isTerminal :: "'p ResponseStreamEvent \<Rightarrow> bool" where
  "isTerminal (ResponseCompleted r) = True"
| "isTerminal (ResponseIncomplete r) = True"
| "isTerminal e = False"

fun terminalStatus :: "'p ResponseStreamEvent \<Rightarrow> Status option" where
  "terminalStatus (ResponseCompleted r) = Some (status r)"
| "terminalStatus (ResponseIncomplete r) = Some (status r)"
| "terminalStatus e = None"

definition terminalEvent :: "string \<Rightarrow> 'p ResponseAPIResponse \<Rightarrow> 'p ResponseStreamEvent" where
  "terminalEvent r resp =
     (if r = ''length'' then ResponseIncomplete resp else ResponseCompleted resp)"

text \<open>The item that closing the open text block of \<open>s\<close> appends.\<close>

definition completedMessage :: "'p ResponseAPIStreamState \<Rightarrow> OutputItem" where
  "completedMessage s =
     OutputMessage (or_empty (messageItemId s)) Completed [OutputText (accumulatedText s)]"

text \<open>The text block of \<open>s\<close> is still open in \<open>s'\<close>, untouched.\<close>

definition sameOpenBlock ::
  "'p ResponseAPIStreamState \<Rightarrow> 'p ResponseAPIStreamState \<Rightarrow> bool" where
  "sameOpenBlock s s' \<longleftrightarrow>
     messageStarted s' \<and> outputItems s' = outputItems s
     \<and> accumulatedText s' = accumulatedText s
     \<and> currentOutputIndex s' = currentOutputIndex s
     \<and> messageItemId s' = messageItemId s"

text \<open>The text block that was open in \<open>s\<close> has been closed by the events \<open>evs\<close>.\<close>

definition blockClosed ::
  "'p ResponseAPIStreamState \<Rightarrow> 'p ResponseStreamEvent list \<Rightarrow> 'p ResponseAPIStreamState \<Rightarrow> bool"
  where
  "blockClosed s evs s' \<longleftrightarrow>
     \<not> messageStarted s' \<and> accumulatedText s' = []
     \<and> outputItems s' = outputItems s @ [completedMessage s]
     \<and> OutputItemDone (currentOutputIndex s) (completedMessage s) \<in> set evs"

text \<open>Accumulated text is non-empty only while a text block is open.\<close>

definition textInv :: "'p ResponseAPIStreamState \<Rightarrow> bool" where
  "textInv s \<longleftrightarrow> messageStarted s \<or> accumulatedText s = []"

text \<open>The block index of a signature_delta event.\<close>

fun signatureIndex :: "AnthropicStreamEventData \<Rightarrow> nat option" where
  "signatureIndex (ContentBlockDelta i (SignatureDelta sg)) = Some i"
| "signatureIndex e = None"

text \<open>
  Every signature_delta of the list is followed at once by the content_block_stop of the
  same index.
\<close>

fun signatureBeforeStop :: "AnthropicStreamEventData list \<Rightarrow> bool" where
  "signatureBeforeStop [] = True"
| "signatureBeforeStop (e # es) =
     ((case signatureIndex e of
         None \<Rightarrow> True
       | Some i \<Rightarrow> take 1 es = [ContentBlockStop i])
      \<and> signatureBeforeStop es)"

text \<open>
  A block is open exactly when it has a type, and an accumulated signature is non-empty
  and belongs to a thinking block.
\<close>

definition anthropicInv :: "AnthropicStreamState \<Rightarrow> bool" where
  "anthropicInv a \<longleftrightarrow>
     (contentBlockOpen a \<longleftrightarrow> contentBlockType a \<noteq> None)
     \<and> (accumulatedReasoningOpaque a \<noteq> None \<longrightarrow>
          contentBlockType a = Some Thinking \<and> truthy (accumulatedReasoningOpaque a))"

text \<open>
  The fragment is for slot \<open>k\<close> and starts a call or carries arguments; the first choice
  of the chunk carries such a fragment.
\<close>

definition affectsSlot :: "nat \<Rightarrow> ToolCallDelta \<Rightarrow> bool" where
  "affectsSlot k tc \<longleftrightarrow>
     tc_index tc = k
     \<and> ((truthy (tc_id tc) \<and> truthy (function_name tc)) \<or> truthy (function_arguments tc))"

definition touchesSlot :: "nat \<Rightarrow> ChatCompletionChunk \<Rightarrow> bool" where
  "touchesSlot k chunk =
     (case choices chunk of
        [] \<Rightarrow> False
      | choice # others \<Rightarrow>
          (case tool_calls (delta choice) of
             None \<Rightarrow> False
           | Some tcs \<Rightarrow> list_ex (affectsSlot k) tcs))"

text \<open>The output item is a message, not a function call.\<close>

fun isMessage :: "OutputItem \<Rightarrow> bool" where
  "isMessage (OutputMessage i st c) = True"
| "isMessage (FunctionCallOutput i c n a st) = False"

text \<open>
  From \<open>s\<close> to \<open>s'\<close> the entry of slot \<open>k\<close> is kept and the keys of the slot map stay
  distinct.
\<close>

definition keepsSlot ::
  "nat \<Rightarrow> 'p ResponseAPIStreamState \<Rightarrow> 'p ResponseAPIStreamState \<Rightarrow> bool" where
  "keepsSlot k s s' \<longleftrightarrow>
     map_of (accumulatedToolCalls s') k = map_of (accumulatedToolCalls s) k
     \<and> (distinct (map fst (accumulatedToolCalls s))
          \<longrightarrow> distinct (map fst (accumulatedToolCalls s')))"

text \<open>
  A chunk whose first choice carries no tool calls (it carries text or nothing), whether
  its first choice carries a finish reason, and its text fragment.
\<close>

definition textOnly :: "ChatCompletionChunk \<Rightarrow> bool" where
  "textOnly chunk =
     (case choices chunk of
        [] \<Rightarrow> False
      | choice # others \<Rightarrow> tool_calls (delta choice) = None)"

definition finishes :: "ChatCompletionChunk \<Rightarrow> bool" where
  "finishes chunk =
     (case choices chunk of
        [] \<Rightarrow> False
      | choice # others \<Rightarrow> truthy (finish_reason choice))"

definition textOf :: "ChatCompletionChunk \<Rightarrow> string" where
  "textOf chunk =
     (case choices chunk of
        [] \<Rightarrow> []
      | choice # others \<Rightarrow> or_empty (content (delta choice)))"

text \<open>The aggregate response carried by the last event of a stream.\<close>

definition finalResponse :: "'p ResponseStreamEvent list \<Rightarrow> 'p ResponseAPIResponse option" where
  "finalResponse evs =
     (case rev evs of
        ResponseCompleted r # earlier \<Rightarrow> Some r
      | ResponseIncomplete r # earlier \<Rightarrow> Some r
      | _ \<Rightarrow> None)"

text \<open>
  The state of a stream that has received the text \<open>t\<close> in text-only chunks from a
  fresh state whose first message id was going to be \<open>mid\<close>.
\<close>

definition textRun :: "string \<Rightarrow> string \<Rightarrow> 'p ResponseAPIStreamState \<Rightarrow> bool" where
  "textRun mid t s \<longleftrightarrow>
     accumulatedToolCalls s = [] \<and> outputItems s = []
     \<and> accumulatedText s = t \<and> totalAccumulatedText s = t
     \<and> (if t = [] then \<not> messageStarted s \<and> ''msg_'' @ randomHex s 0 = mid
         else messageStarted s \<and> messageItemId s = Some mid)"

section \<open>Properties\<close>

text \<open>Unfolding the example inputs and the Response-API-style translator.\<close>

lemmas example_defs =
  finishChunk_def textChunk_def exampleChunk_def finishChoice_def textChoice_def emptyDelta_def
  exampleState_def openEmptyState_def createStreamState_def generateResponseId_def
  exampleRandomHex_def

lemmas responses_defs =
  translateChunkToEvents_def handleTextDelta_def startTextMessage_def closeTextMessage_def
  handleFinish_def completeToolCalls_def updateUsageFromChunk_def buildFinalResponse_def
  buildResponseObject_def mapFinishReasonToStatus_def generateItemId_def or_empty_def
  handleToolCall_def startToolCall_def appendToolArguments_def function_name_def
  function_arguments_def completedToolCall_def

lemmas anthropic_defs =
  translateChunkToAnthropicEvents_def anthropic_message_start_def anthropic_reasoning_def
  anthropic_content_def anthropic_tool_call_def anthropic_finish_def closeCurrentBlock_def
  anthropicUsage_def cached_tokens_def mapOpenAIStopReasonToAnthropic_def
  initialAnthropicStreamState_def or_empty_def function_name_def function_arguments_def

lemmas more_example_defs = toolChunk_def reasoningChunk_def openTextBlockState_def

subsection \<open>Chunks without choices\<close>

text \<open>
  C7. For a chunk whose choices list is empty, each of the three translators produces no
  outbound event. The Response-API-style state changes in its usage snapshot only, and only
  when the chunk carries usage; the Anthropic-style and Gemini-style states do not change
  at all.
\<close>

theorem empty_choices_only_usage:
  "translateChunkToEvents (chunk\<lparr>choices := []\<rparr>) s
     = ([], case chunk_usage chunk of None \<Rightarrow> s | Some u \<Rightarrow> s\<lparr>usage := parseUsage u\<rparr>)
   \<and> translateChunkToAnthropicEvents (chunk\<lparr>choices := []\<rparr>) a = ([], a)
   \<and> translateChunkToGeminiResponse jsonParse emptyObject (chunk\<lparr>choices := []\<rparr>) g = (None, g)"
  by (simp add: translateChunkToEvents_def translateChunkToAnthropicEvents_def
      translateChunkToGeminiResponse_def updateUsageFromChunk_def)

subsection \<open>Only the first choice is read\<close>

lemma handleFinish_choices [simp]:
  "handleFinish s (chunk\<lparr>choices := cs\<rparr>) r = handleFinish s chunk r"
  by (simp add: handleFinish_def updateUsageFromChunk_def)

lemma anthropic_message_start_choices [simp]:
  "anthropic_message_start (chunk\<lparr>choices := cs\<rparr>) a = anthropic_message_start chunk a"
  by (simp add: anthropic_message_start_def anthropicUsage_def cached_tokens_def)

lemma anthropic_finish_choices [simp]:
  "anthropic_finish (chunk\<lparr>choices := cs\<rparr>) c a = anthropic_finish chunk c a"
  by (simp add: anthropic_finish_def anthropicUsage_def cached_tokens_def)

lemma buildFinalChunk_choices [simp]:
  "buildFinalChunk jp eo r tp (chunk\<lparr>choices := cs\<rparr>) g = buildFinalChunk jp eo r tp chunk g"
  by (simp add: buildFinalChunk_def buildUsageMetadata_def cached_tokens_def)

text \<open>
  C9. For a chunk with at least one choice, the events (or the Gemini response) and the
  next state of each of the three translators are the same whatever the choices after the
  first one are.
\<close>

theorem only_first_choice_read:
  "translateChunkToEvents (chunk\<lparr>choices := choice # others\<rparr>) s
     = translateChunkToEvents (chunk\<lparr>choices := choice # others'\<rparr>) s
   \<and> translateChunkToAnthropicEvents (chunk\<lparr>choices := choice # others\<rparr>) a
     = translateChunkToAnthropicEvents (chunk\<lparr>choices := choice # others'\<rparr>) a
   \<and> translateChunkToGeminiResponse jsonParse emptyObject (chunk\<lparr>choices := choice # others\<rparr>) g
     = translateChunkToGeminiResponse jsonParse emptyObject (chunk\<lparr>choices := choice # others'\<rparr>) g"
  by (simp add: translateChunkToEvents_def translateChunkToAnthropicEvents_def
      translateChunkToGeminiResponse_def Let_def
      cong: if_cong prod.case_cong option.case_cong)

subsection \<open>Argument fragments for an unknown slot\<close>

text \<open>
  C8. A tool-call fragment that does not start a call (it lacks an id or a function name)
  and whose slot has no entry in the slot map emits no event and leaves the state as it
  was, in the Response-API-style and in the Anthropic-style translator.
\<close>

theorem unknown_slot_fragment_dropped:
  assumes "\<not> (truthy (tc_id toolCall) \<and> truthy (function_name toolCall))"
  shows "(map_of (accumulatedToolCalls s) (tc_index toolCall) = None
            \<longrightarrow> handleToolCall s toolCall = ([], s))
       \<and> (toolCalls a (tc_index toolCall) = None
            \<longrightarrow> anthropic_tool_call toolCall a = ([], a))"
proof -
  have notStart: "(truthy (tc_id toolCall) \<and> truthy (function_name toolCall)) = False"
    using assms by simp
  show ?thesis
    by (simp add: handleToolCall_def appendToolArguments_def anthropic_tool_call_def notStart)
qed

theorem unknown_slot_fragment_dropped_witness:
  "\<not> (truthy (tc_id argumentsFragment) \<and> truthy (function_name argumentsFragment))
   \<and> truthy (function_arguments argumentsFragment)
   \<and> map_of (accumulatedToolCalls exampleState) (tc_index argumentsFragment) = None
   \<and> toolCalls initialAnthropicStreamState (tc_index argumentsFragment) = None
   \<and> handleToolCall exampleState argumentsFragment = ([], exampleState)
   \<and> anthropic_tool_call argumentsFragment initialAnthropicStreamState
       = ([], initialAnthropicStreamState)"
proof -
  have notStart:
    "\<not> (truthy (tc_id argumentsFragment) \<and> truthy (function_name argumentsFragment))"
    by (simp add: argumentsFragment_def)
  have unknown:
    "map_of (accumulatedToolCalls exampleState) (tc_index argumentsFragment) = None"
    "toolCalls initialAnthropicStreamState (tc_index argumentsFragment) = None"
    by (simp_all add: exampleState_def createStreamState_def exampleChunk_def
        initialAnthropicStreamState_def)
  have fragment: "truthy (function_arguments argumentsFragment)"
    by (simp add: argumentsFragment_def function_arguments_def)
  show ?thesis
    using unknown_slot_fragment_dropped
            [OF notStart, of exampleState initialAnthropicStreamState]
          notStart unknown fragment
    by simp
qed

subsection \<open>The Gemini-style finish chunk with accumulated function calls\<close>

lemma update_not_Nil: "AList.update k v al \<noteq> []"
  by (cases al) auto

lemma accumulateToolCall_nonempty:
  "accumulatedFunctionCalls g \<noteq> [] \<Longrightarrow> accumulatedFunctionCalls (accumulateToolCall tc g) \<noteq> []"
  by (simp add: accumulateToolCall_def update_not_Nil split: option.splits)

lemma fold_accumulateToolCall_nonempty:
  "accumulatedFunctionCalls g \<noteq> [] \<Longrightarrow>
   accumulatedFunctionCalls (fold accumulateToolCall l g) \<noteq> []"
  by (induction l arbitrary: g) (simp_all add: accumulateToolCall_nonempty)

lemma accumulateToolCalls_nonempty:
  "accumulatedFunctionCalls g \<noteq> [] \<Longrightarrow>
   accumulatedFunctionCalls (accumulateToolCalls tcs g) \<noteq> []"
  by (simp add: accumulateToolCalls_def fold_accumulateToolCall_nonempty split: option.splits)

text \<open>
  C10. When a finish chunk reaches the Gemini-style translator in a state that holds at
  least one accumulated function call, a response is produced, every part of it is a
  functionCall part, and the response and the next state are the same whatever text the
  finish chunk carries: the text is discarded.
\<close>

theorem finish_with_function_calls_drops_text:
  assumes "truthy (finish_reason choice)"
      and "accumulatedFunctionCalls g \<noteq> []"
  shows "\<exists>r g'. translateChunkToGeminiResponse jsonParse emptyObject
                  (chunk\<lparr>choices := choice # others\<rparr>) g = (Some r, g')
           \<and> list_all isFunctionCallPart (response_parts r)
           \<and> translateChunkToGeminiResponse jsonParse emptyObject
                  (chunk\<lparr>choices := choice\<lparr>delta := (delta choice)\<lparr>content := anyText\<rparr>\<rparr> # others\<rparr>) g
               = (Some r, g')"
  using assms accumulateToolCalls_nonempty [of g "tool_calls (delta choice)"]
  by (auto simp: translateChunkToGeminiResponse_def buildFinalChunk_def Let_def
      buildFunctionCallResponse_def response_parts_def list_all_iff buildUsageMetadata_def
      cached_tokens_def)

theorem finish_with_function_calls_drops_text_witness:
  "truthy (finish_reason (finishChoice ''tool_calls''))
   \<and> accumulatedFunctionCalls exampleGeminiState \<noteq> []
   \<and> fst (translateChunkToGeminiResponse (\<lambda>x. None) ()
        (exampleChunk\<lparr>choices := [(finishChoice ''tool_calls'')
                                     \<lparr>delta := emptyDelta\<lparr>content := Some ''Hello''\<rparr>\<rparr>]\<rparr>)
        exampleGeminiState)
     = Some \<lparr>candidates =
              [\<lparr>cand_content = Some [FunctionCallPart ''call_1'' ''get_weather'' ()],
                cand_finishReason = Some STOP, cand_index = 0\<rparr>],
             usageMetadata =
               Some \<lparr>promptTokenCount = 0, candidatesTokenCount = 0, totalTokenCount = 0,
                     cachedContentTokenCount = None\<rparr>,
             modelVersion = Some ''gemini-2.5-pro''\<rparr>"
proof -
  have fin: "truthy (finish_reason (finishChoice ''tool_calls''))"
    by (simp add: finishChoice_def)
  have acc: "accumulatedFunctionCalls exampleGeminiState \<noteq> []"
    by (simp add: exampleGeminiState_def accumulateToolCall_def startFragment_def
        function_name_def createStreamState_gemini_def)
  show ?thesis
    using finish_with_function_calls_drops_text
            [OF fin acc, where jsonParse = "\<lambda>x. None" and emptyObject = "()"
               and chunk = exampleChunk and others = "[]" and anyText = "Some ''Hello''"]
          fin acc
    by (auto simp: finishChoice_def emptyDelta_def translateChunkToGeminiResponse_def
        exampleChunk_def exampleGeminiState_def accumulateToolCall_def startFragment_def
        function_name_def function_arguments_def createStreamState_gemini_def
        accumulateToolCalls_def buildFinalChunk_def buildFunctionCallResponse_def
        buildUsageMetadata_def cached_tokens_def mapOpenAIFinishReasonToGemini_def
        parseToolCallArgs_def or_empty_def buildTextParts_def)
qed

subsection \<open>The terminal event of a finish chunk\<close>

lemma closeTextMessage_no_terminal:
  "closeTextMessage s = (evs, s') \<Longrightarrow> filter isTerminal evs = []"
  by (auto simp: closeTextMessage_def Let_def)

lemma handleTextDelta_no_terminal:
  "handleTextDelta s t = (evs, s') \<Longrightarrow> filter isTerminal evs = []"
  by (auto simp: handleTextDelta_def startTextMessage_def generateItemId_def Let_def
      split: prod.splits if_splits)

lemma startToolCall_no_terminal:
  "startToolCall s tc = (evs, s') \<Longrightarrow> filter isTerminal evs = []"
  by (auto simp: startToolCall_def generateItemId_def Let_def
      split: prod.splits if_splits dest: closeTextMessage_no_terminal)

lemma appendToolArguments_no_terminal:
  "appendToolArguments s tc = (evs, s') \<Longrightarrow> filter isTerminal evs = []"
  by (auto simp: appendToolArguments_def split: option.splits if_splits)

lemma handleToolCall_no_terminal:
  "handleToolCall s tc = (evs, s') \<Longrightarrow> filter isTerminal evs = []"
  by (auto simp: handleToolCall_def split: prod.splits if_splits
      dest: startToolCall_no_terminal appendToolArguments_no_terminal)

lemma handleToolCalls_no_terminal:
  "handleToolCalls s tcs = (evs, s') \<Longrightarrow> filter isTerminal evs = []"
proof (induction tcs arbitrary: s evs s')
  case Nil
  then show ?case by simp
next
  case (Cons tc tcs)
  then show ?case
    by (auto split: prod.splits dest: handleToolCall_no_terminal)
qed

lemma completeToolCalls_no_terminal:
  "completeToolCalls s = (evs, s') \<Longrightarrow> filter isTerminal evs = []"
proof -
  have "filter isTerminal (concat (map (\<lambda>(slot, toolInfo).
                [FunctionCallArgumentsDone (ti_id toolInfo) (outputIndex toolInfo) (args toolInfo),
                 OutputItemDone (outputIndex toolInfo) (completedToolCall toolInfo)]) l))
          = ([] :: 'a ResponseStreamEvent list)" for l
    by (induction l) (auto split: prod.splits)
  then show "completeToolCalls s = (evs, s') \<Longrightarrow> filter isTerminal evs = []"
    by (auto simp: completeToolCalls_def)
qed

lemma handleFinish_terminal:
  "\<exists>evs s'. handleFinish s chunk r = (evs @ [terminalEvent r (buildFinalResponse s' r)], s')
     \<and> filter isTerminal evs = []"
proof -
  obtain e1 s1 where a: "(if messageStarted s then closeTextMessage s else ([], s)) = (e1, s1)"
    by force
  obtain e2 s2 where b: "completeToolCalls s1 = (e2, s2)" by force
  have "filter isTerminal e1 = []"
    using a by (auto split: if_splits dest: closeTextMessage_no_terminal)
  moreover have "filter isTerminal e2 = []"
    using b by (rule completeToolCalls_no_terminal)
  ultimately show ?thesis
    by (simp add: handleFinish_def a b terminalEvent_def Let_def)
qed

text \<open>
  C3 (amended). A finish chunk (first choice with a non-empty finish reason) ends its event
  list with exactly one response-level event. Its kind is response.incomplete when the
  reason is "length" and response.completed for every other reason. The status of the
  response it carries is "incomplete" for "length" and for "content_filter" and
  "completed" for every other reason; incomplete_details is max_output_tokens for "length"
  and null otherwise.
\<close>

theorem terminal_event_by_finish_reason:
  assumes "choices chunk = choice # others"
      and "finish_reason choice = Some r"
      and "r \<noteq> []"
  shows "\<exists>evs s'. translateChunkToEvents chunk s
                    = (evs @ [if r = ''length'' then ResponseIncomplete (buildFinalResponse s' r)
                              else ResponseCompleted (buildFinalResponse s' r)], s')
           \<and> filter isTerminal evs = []
           \<and> status (buildFinalResponse s' r)
               = (if r = ''length'' \<or> r = ''content_filter'' then Incomplete else Completed)
           \<and> incomplete_details (buildFinalResponse s' r)
               = (if r = ''length'' then Some MaxOutputTokens else None)"
proof -
  obtain e1 s1 where a:
    "(if truthy (content (delta choice))
      then handleTextDelta s (or_empty (content (delta choice))) else ([], s)) = (e1, s1)"
    by force
  obtain e2 s2 where b:
    "(case tool_calls (delta choice) of None \<Rightarrow> ([], s1)
      | Some tcs \<Rightarrow> handleToolCalls s1 tcs) = (e2, s2)"
    by force
  obtain e3 s3 where c:
    "handleFinish s2 chunk r = (e3 @ [terminalEvent r (buildFinalResponse s3 r)], s3)"
    and e3: "filter isTerminal e3 = []"
    using handleFinish_terminal [of s2 chunk r] by blast
  have e1: "filter isTerminal e1 = []"
    using a by (auto split: if_splits dest: handleTextDelta_no_terminal)
  have e2: "filter isTerminal e2 = []"
    using b by (auto split: option.splits dest: handleToolCalls_no_terminal)
  have tr: "truthy (Some r)" using assms(3) by (cases r) simp_all
  have run: "translateChunkToEvents chunk s
               = ((e1 @ e2 @ e3) @ [terminalEvent r (buildFinalResponse s3 r)], s3)"
    using assms(1,2) tr by (simp add: translateChunkToEvents_def a b c or_empty_def)
  have st: "status (buildFinalResponse s3 r)
               = (if r = ''length'' \<or> r = ''content_filter'' then Incomplete else Completed)"
    using tr by (simp add: buildFinalResponse_def buildResponseObject_def mapFinishReasonToStatus_def)
  have det: "incomplete_details (buildFinalResponse s3 r)
               = (if r = ''length'' then Some MaxOutputTokens else None)"
    by (simp add: buildFinalResponse_def buildResponseObject_def)
  show ?thesis
    using run e1 e2 e3 st det unfolding terminalEvent_def
    by (intro exI [of _ "e1 @ e2 @ e3"] exI [of _ s3]) simp
qed

theorem terminal_event_by_finish_reason_witness:
  "choices (finishChunk ''length'') = finishChoice ''length'' # []
   \<and> finish_reason (finishChoice ''length'') = Some ''length''
   \<and> ''length'' \<noteq> []
   \<and> map terminalStatus (fst (translateChunkToEvents (finishChunk ''length'') exampleState))
       = [Some Incomplete]
   \<and> map isTerminal (fst (translateChunkToEvents (finishChunk ''stop'') openEmptyState))
       = [False, False, False, True]"
proof -
  have h1: "choices (finishChunk ''length'') = finishChoice ''length'' # []"
    by (simp add: finishChunk_def)
  have h2: "finish_reason (finishChoice ''length'') = Some ''length''"
    by (simp add: finishChoice_def)
  have h3: "''length'' \<noteq> []" by simp
  have ev: "map isTerminal (fst (translateChunkToEvents (finishChunk ''stop'') openEmptyState))
       = [False, False, False, True]"
    by (simp add: example_defs responses_defs Let_def)
  have st: "map terminalStatus (fst (translateChunkToEvents (finishChunk ''length'') exampleState))
       = [Some Incomplete]"
    by (simp add: example_defs responses_defs Let_def)
  show ?thesis
    using terminal_event_by_finish_reason [OF h1 h2 h3, of exampleState] h1 h2 h3 ev st
    by simp
qed

text \<open>
  The claim as stated fails for the finish reason "content_filter": the response of the
  terminal event has the status "incomplete".
\<close>

theorem content_filter_status_counterexample:
  "map terminalStatus (fst (translateChunkToEvents (finishChunk ''content_filter'') exampleState))
     = [Some Incomplete]"
  by (simp add: example_defs responses_defs Let_def)

subsection \<open>Closing an empty text block at the finish\<close>

lemma closeTextMessage_effect:
  "closeTextMessage s = (evs, s') \<Longrightarrow>
     evs = [OutputTextDone (or_empty (messageItemId s)) (currentOutputIndex s)
              (currentContentIndex s) (accumulatedText s),
            ContentPartDone (or_empty (messageItemId s)) (currentOutputIndex s)
              (currentContentIndex s) (OutputText (accumulatedText s)),
            OutputItemDone (currentOutputIndex s) (completedMessage s)]
     \<and> outputItems s' = outputItems s @ [completedMessage s]
     \<and> \<not> messageStarted s' \<and> accumulatedText s' = []
     \<and> accumulatedToolCalls s' = accumulatedToolCalls s
     \<and> totalAccumulatedText s' = totalAccumulatedText s"
  by (auto simp: closeTextMessage_def completedMessage_def Let_def)

lemma startToolCall_closed:
  "\<not> messageStarted s \<Longrightarrow> startToolCall s tc = (evs, s') \<Longrightarrow>
     \<not> messageStarted s' \<and> outputItems s' = outputItems s
     \<and> accumulatedText s' = accumulatedText s"
  by (auto simp: startToolCall_def generateItemId_def Let_def split: prod.splits)

lemma startToolCall_open:
  "messageStarted s \<Longrightarrow> startToolCall s tc = (evs, s') \<Longrightarrow>
     \<not> messageStarted s' \<and> outputItems s' = outputItems s @ [completedMessage s]
     \<and> accumulatedText s' = []
     \<and> OutputItemDone (currentOutputIndex s) (completedMessage s) \<in> set evs"
  by (auto simp: startToolCall_def generateItemId_def Let_def closeTextMessage_def
      completedMessage_def split: prod.splits)

lemma appendToolArguments_frame:
  "appendToolArguments s tc = (evs, s') \<Longrightarrow>
     messageStarted s' = messageStarted s \<and> outputItems s' = outputItems s
     \<and> accumulatedText s' = accumulatedText s
     \<and> totalAccumulatedText s' = totalAccumulatedText s
     \<and> currentOutputIndex s' = currentOutputIndex s
     \<and> currentContentIndex s' = currentContentIndex s
     \<and> messageItemId s' = messageItemId s"
  by (auto simp: appendToolArguments_def split: option.splits if_splits)

lemma handleToolCall_closed:
  assumes "\<not> messageStarted s" and "handleToolCall s tc = (evs, s')"
  shows "\<not> messageStarted s' \<and> outputItems s' = outputItems s
         \<and> accumulatedText s' = accumulatedText s"
proof -
  obtain e1 s1 where a:
    "(if truthy (tc_id tc) \<and> truthy (function_name tc)
      then startToolCall s tc else ([], s)) = (e1, s1)"
    by force
  obtain e2 s2 where b:
    "(if truthy (function_arguments tc) then appendToolArguments s1 tc else ([], s1)) = (e2, s2)"
    by force
  have r: "s' = s2" using assms(2) by (simp add: handleToolCall_def a b)
  have 1: "\<not> messageStarted s1 \<and> outputItems s1 = outputItems s
           \<and> accumulatedText s1 = accumulatedText s"
  proof (cases "truthy (tc_id tc) \<and> truthy (function_name tc)")
    case True
    then have "startToolCall s tc = (e1, s1)" using a by simp
    from startToolCall_closed [OF assms(1) this] show ?thesis .
  next
    case False
    then have "s1 = s" using a by auto
    then show ?thesis using assms(1) by simp
  qed
  have 2: "messageStarted s2 = messageStarted s1 \<and> outputItems s2 = outputItems s1
            \<and> accumulatedText s2 = accumulatedText s1"
  proof (cases "truthy (function_arguments tc)")
    case True
    then have "appendToolArguments s1 tc = (e2, s2)" using b by simp
    from appendToolArguments_frame [OF this] show ?thesis by simp
  next
    case False
    then show ?thesis using b by simp
  qed
  show ?thesis using 1 2 r by simp
qed

lemma handleToolCalls_closed:
  "\<not> messageStarted s \<Longrightarrow> handleToolCalls s tcs = (evs, s') \<Longrightarrow>
     \<not> messageStarted s' \<and> outputItems s' = outputItems s
     \<and> accumulatedText s' = accumulatedText s"
proof (induction tcs arbitrary: s evs s')
  case Nil
  then show ?case by simp
next
  case (Cons tc tcs)
  obtain e1 s1 where a: "handleToolCall s tc = (e1, s1)" by force
  obtain e2 s2 where b: "handleToolCalls s1 tcs = (e2, s2)" by force
  have s': "s' = s2" using Cons.prems(2) by (simp add: a b)
  have 1: "\<not> messageStarted s1 \<and> outputItems s1 = outputItems s
           \<and> accumulatedText s1 = accumulatedText s"
    using handleToolCall_closed [OF Cons.prems(1) a] .
  then show ?case using Cons.IH [of s1 e2 s2] b s' by simp
qed

lemma handleToolCall_open:
  assumes "messageStarted s" and "handleToolCall s tc = (evs, s')"
  shows "sameOpenBlock s s' \<or> blockClosed s evs s'"
proof (cases "truthy (tc_id tc) \<and> truthy (function_name tc)")
  case True
  obtain e1 s1 where a: "startToolCall s tc = (e1, s1)" by force
  obtain e2 s2 where b:
    "(if truthy (function_arguments tc) then appendToolArguments s1 tc else ([], s1)) = (e2, s2)"
    by force
  have r: "evs = e1 @ e2" "s' = s2"
    using assms(2) True by (simp_all add: handleToolCall_def a b)
  have fr: "messageStarted s2 = messageStarted s1 \<and> outputItems s2 = outputItems s1
            \<and> accumulatedText s2 = accumulatedText s1"
    using b by (auto split: if_splits dest!: appendToolArguments_frame)
  show ?thesis
    using startToolCall_open [OF assms(1) a] fr r by (simp add: blockClosed_def)
next
  case False
  then have ns: "(truthy (tc_id tc) \<and> truthy (function_name tc)) = False" by simp
  have "(if truthy (function_arguments tc) then appendToolArguments s tc else ([], s))
               = (evs, s')"
    using assms(2) by (simp add: handleToolCall_def ns split: prod.splits)
  then show ?thesis
    using assms(1) by (auto simp: sameOpenBlock_def split: if_splits dest!: appendToolArguments_frame)
qed

lemma handleToolCalls_open:
  assumes "messageStarted s" and "handleToolCalls s tcs = (evs, s')"
  shows "sameOpenBlock s s' \<or> blockClosed s evs s'"
  using assms
proof (induction tcs arbitrary: s evs s')
  case Nil
  then show ?case by (simp add: sameOpenBlock_def)
next
  case (Cons tc tcs)
  obtain e1 s1 where a: "handleToolCall s tc = (e1, s1)" by force
  obtain e2 s2 where b: "handleToolCalls s1 tcs = (e2, s2)" by force
  have r: "evs = e1 @ e2" "s' = s2" using Cons.prems(2) by (simp_all add: a b)
  from handleToolCall_open [OF Cons.prems(1) a]
  show ?case
  proof
    assume same: "sameOpenBlock s s1"
    then have "messageStarted s1" by (simp add: sameOpenBlock_def)
    from Cons.IH [OF this b] same r show ?thesis
      by (auto simp: sameOpenBlock_def blockClosed_def completedMessage_def)
  next
    assume cl: "blockClosed s e1 s1"
    then have "\<not> messageStarted s1" by (simp add: blockClosed_def)
    from handleToolCalls_closed [OF this b] cl r show ?thesis
      by (auto simp: blockClosed_def)
  qed
qed

lemma completeToolCalls_effect:
  "completeToolCalls s = (evs, s') \<Longrightarrow>
     outputItems s' = outputItems s @ map (\<lambda>(slot, toolInfo). completedToolCall toolInfo)
                                          (accumulatedToolCalls s)
     \<and> messageStarted s' = messageStarted s \<and> accumulatedText s' = accumulatedText s
     \<and> totalAccumulatedText s' = totalAccumulatedText s"
  by (auto simp: completeToolCalls_def)

lemma updateUsageFromChunk_frame:
  "outputItems (updateUsageFromChunk s chunk) = outputItems s
   \<and> messageStarted (updateUsageFromChunk s chunk) = messageStarted s
   \<and> accumulatedText (updateUsageFromChunk s chunk) = accumulatedText s
   \<and> totalAccumulatedText (updateUsageFromChunk s chunk) = totalAccumulatedText s"
  by (simp add: updateUsageFromChunk_def split: option.splits)

lemma handleFinish_open:
  assumes "messageStarted s" and "handleFinish s chunk r = (evs, s')"
  shows "\<exists>later. outputItems s' = outputItems s @ completedMessage s # later
           \<and> OutputItemDone (currentOutputIndex s) (completedMessage s) \<in> set evs
           \<and> \<not> messageStarted s' \<and> accumulatedText s' = []"
proof -
  obtain e1 s1 where a: "closeTextMessage s = (e1, s1)" by force
  obtain e2 s2 where b: "completeToolCalls s1 = (e2, s2)" by force
  have r: "s' = updateUsageFromChunk s2 chunk" "set e1 \<subseteq> set evs"
    using assms by (auto simp: handleFinish_def a b Let_def)
  show ?thesis
    using closeTextMessage_effect [OF a] completeToolCalls_effect [OF b] r
          updateUsageFromChunk_frame [of s2 chunk]
    by auto
qed

lemma handleFinish_closed:
  assumes "\<not> messageStarted s" and "handleFinish s chunk r = (evs, s')"
  shows "\<exists>later. outputItems s' = outputItems s @ later
           \<and> \<not> messageStarted s' \<and> accumulatedText s' = accumulatedText s"
proof -
  obtain e2 s2 where b: "completeToolCalls s = (e2, s2)" by force
  have r: "s' = updateUsageFromChunk s2 chunk"
    using assms by (auto simp: handleFinish_def b Let_def)
  show ?thesis
    using completeToolCalls_effect [OF b] r updateUsageFromChunk_frame [of s2 chunk] assms(1)
    by auto
qed

lemma finish_chunk_closes_empty_block:
  assumes "choices chunk = choice # others"
      and "\<not> truthy (content (delta choice))"
      and "finish_reason choice = Some r"
      and "r \<noteq> []"
      and "messageStarted s"
      and "accumulatedText s = []"
  shows "\<exists>evs s' later.
           translateChunkToEvents chunk s = (evs, s')
           \<and> OutputItemDone (currentOutputIndex s)
                (OutputMessage (or_empty (messageItemId s)) Completed [OutputText []]) \<in> set evs
           \<and> outputItems s'
               = outputItems s
                 @ OutputMessage (or_empty (messageItemId s)) Completed [OutputText []] # later
           \<and> \<not> messageStarted s' \<and> accumulatedText s' = []"
proof -
  have msg: "completedMessage s
               = OutputMessage (or_empty (messageItemId s)) Completed [OutputText []]"
    using assms(6) by (simp add: completedMessage_def)
  obtain e2 s2 where b:
    "(case tool_calls (delta choice) of None \<Rightarrow> ([], s)
      | Some tcs \<Rightarrow> handleToolCalls s tcs) = (e2, s2)"
    by force
  obtain e3 s3 where c: "handleFinish s2 chunk r = (e3, s3)" by force
  have tr: "truthy (Some r)" using assms(4) by (cases r) simp_all
  have run: "translateChunkToEvents chunk s = (e2 @ e3, s3)"
    using assms(1,2,3) tr by (simp add: translateChunkToEvents_def b c or_empty_def)
  have "sameOpenBlock s s2 \<or> blockClosed s e2 s2"
    using b assms(5) handleToolCalls_open [OF assms(5)]
    by (auto simp: sameOpenBlock_def split: option.splits)
  then show ?thesis
  proof
    assume same: "sameOpenBlock s s2"
    then have op: "messageStarted s2" by (simp add: sameOpenBlock_def)
    have eq: "completedMessage s2 = completedMessage s"
             "currentOutputIndex s2 = currentOutputIndex s" "outputItems s2 = outputItems s"
      using same by (simp_all add: sameOpenBlock_def completedMessage_def)
    from handleFinish_open [OF op c] show ?thesis
      unfolding run eq msg by auto
  next
    assume cl: "blockClosed s e2 s2"
    then have op: "\<not> messageStarted s2" by (simp add: blockClosed_def)
    from handleFinish_closed [OF op c] cl show ?thesis
      unfolding run blockClosed_def msg by auto
  qed
qed

text \<open>
  C5. In a state where a text block is open and its accumulated text is empty, handling the
  finish signal closes the block: the events start with the three done events of a
  completed message whose text is the empty string, that message is appended to
  outputItems (followed by the completed tool items), and afterwards no text block is open.
  So does a whole finish chunk that carries no text, whatever tool-call fragments it
  carries: the item-done event of the completed empty message is among its events and the
  message is appended to outputItems right after the items already there.
\<close>

theorem finish_closes_empty_text_block:
  assumes "messageStarted s"
      and "accumulatedText s = []"
  shows "(\<exists>rest s'.
            handleFinish s chunk r
              = ([OutputTextDone (or_empty (messageItemId s)) (currentOutputIndex s)
                    (currentContentIndex s) [],
                  ContentPartDone (or_empty (messageItemId s)) (currentOutputIndex s)
                    (currentContentIndex s) (OutputText []),
                  OutputItemDone (currentOutputIndex s)
                    (OutputMessage (or_empty (messageItemId s)) Completed [OutputText []])]
                 @ rest, s')
            \<and> outputItems s'
                = outputItems s
                  @ OutputMessage (or_empty (messageItemId s)) Completed [OutputText []]
                  # map (\<lambda>(slot, toolInfo). completedToolCall toolInfo) (accumulatedToolCalls s)
            \<and> \<not> messageStarted s' \<and> accumulatedText s' = [])
       \<and> (choices chunk = choice # others \<and> \<not> truthy (content (delta choice))
            \<and> truthy (finish_reason choice) \<longrightarrow>
           (\<exists>evs s' later.
              translateChunkToEvents chunk s = (evs, s')
              \<and> OutputItemDone (currentOutputIndex s)
                   (OutputMessage (or_empty (messageItemId s)) Completed [OutputText []])
                 \<in> set evs
              \<and> outputItems s'
                  = outputItems s
                    @ OutputMessage (or_empty (messageItemId s)) Completed [OutputText []] # later
              \<and> \<not> messageStarted s' \<and> accumulatedText s' = []))"
proof -
  obtain e1 s1 where a: "closeTextMessage s = (e1, s1)" by force
  obtain e2 s2 where b: "completeToolCalls s1 = (e2, s2)" by force
  have fin: "handleFinish s chunk r
               = (e1 @ e2 @ [terminalEvent r (buildFinalResponse (updateUsageFromChunk s2 chunk) r)],
                  updateUsageFromChunk s2 chunk)"
    using assms(1) by (simp add: handleFinish_def a b terminalEvent_def Let_def)
  have msg: "completedMessage s
               = OutputMessage (or_empty (messageItemId s)) Completed [OutputText []]"
    using assms(2) by (simp add: completedMessage_def)
  have first: "\<exists>rest s'.
            handleFinish s chunk r
              = ([OutputTextDone (or_empty (messageItemId s)) (currentOutputIndex s)
                    (currentContentIndex s) [],
                  ContentPartDone (or_empty (messageItemId s)) (currentOutputIndex s)
                    (currentContentIndex s) (OutputText []),
                  OutputItemDone (currentOutputIndex s)
                    (OutputMessage (or_empty (messageItemId s)) Completed [OutputText []])]
                 @ rest, s')
            \<and> outputItems s'
                = outputItems s
                  @ OutputMessage (or_empty (messageItemId s)) Completed [OutputText []]
                  # map (\<lambda>(slot, toolInfo). completedToolCall toolInfo) (accumulatedToolCalls s)
            \<and> \<not> messageStarted s' \<and> accumulatedText s' = []"
    unfolding fin
    using closeTextMessage_effect [OF a] completeToolCalls_effect [OF b]
          updateUsageFromChunk_frame [of s2 chunk] assms(2) msg
    by simp
  have second: "\<exists>evs s' later.
              translateChunkToEvents chunk s = (evs, s')
              \<and> OutputItemDone (currentOutputIndex s)
                   (OutputMessage (or_empty (messageItemId s)) Completed [OutputText []])
                 \<in> set evs
              \<and> outputItems s'
                  = outputItems s
                    @ OutputMessage (or_empty (messageItemId s)) Completed [OutputText []] # later
              \<and> \<not> messageStarted s' \<and> accumulatedText s' = []"
    if c: "choices chunk = choice # others" "\<not> truthy (content (delta choice))"
          "truthy (finish_reason choice)"
  proof -
    obtain r' where r': "finish_reason choice = Some r'" "r' \<noteq> []"
      using c(3) by (cases "finish_reason choice" rule: truthy.cases) simp_all
    show ?thesis
      using finish_chunk_closes_empty_block [OF c(1,2) r' assms] .
  qed
  show ?thesis using first second by blast
qed

theorem finish_closes_empty_text_block_witness:
  "messageStarted openEmptyState
   \<and> accumulatedText openEmptyState = []
   \<and> choices (finishChunk ''stop'') = finishChoice ''stop'' # []
   \<and> \<not> truthy (content (delta (finishChoice ''stop'')))
   \<and> truthy (finish_reason (finishChoice ''stop''))
   \<and> map isTerminal (fst (handleFinish openEmptyState (finishChunk ''stop'') ''stop''))
       = [False, False, False, True]
   \<and> OutputItemDone 0 (OutputMessage [] Completed [OutputText []])
       \<in> set (fst (translateChunkToEvents (finishChunk ''stop'') openEmptyState))
   \<and> outputItems (snd (translateChunkToEvents (finishChunk ''stop'') openEmptyState))
       = [OutputMessage [] Completed [OutputText []]]"
proof -
  have h1: "choices (finishChunk ''stop'') = finishChoice ''stop'' # []"
    by (simp add: finishChunk_def)
  have h2: "\<not> truthy (content (delta (finishChoice ''stop'')))"
    by (simp add: finishChoice_def emptyDelta_def)
  have h3: "truthy (finish_reason (finishChoice ''stop''))"
    by (simp add: finishChoice_def)
  have h5: "messageStarted openEmptyState" by (simp add: openEmptyState_def)
  have h6: "accumulatedText openEmptyState = []" by (simp add: openEmptyState_def)
  have st: "currentOutputIndex openEmptyState = 0" "messageItemId openEmptyState = None"
           "outputItems openEmptyState = []" "accumulatedToolCalls openEmptyState = []"
    by (simp_all add: example_defs)
  have hf: "map isTerminal (fst (handleFinish openEmptyState (finishChunk ''stop'') ''stop''))
       = [False, False, False, True]"
    by (simp add: example_defs responses_defs Let_def)
  have items: "outputItems (snd (translateChunkToEvents (finishChunk ''stop'') openEmptyState))
       = [OutputMessage [] Completed [OutputText []]]"
    by (simp add: example_defs responses_defs Let_def)
  show ?thesis
    using finish_closes_empty_text_block
            [OF h5 h6, of "finishChunk ''stop''" "''stop''" "finishChoice ''stop''" "[]"]
          h1 h2 h3 h5 h6 st hf items
    by (auto simp: or_empty_def)
qed

subsection \<open>Invariants of the Anthropic-style translator\<close>

lemma signatureBeforeStop_append:
  "signatureBeforeStop xs \<Longrightarrow> signatureBeforeStop ys \<Longrightarrow> signatureBeforeStop (xs @ ys)"
proof (induction xs)
  case Nil
  then show ?case by simp
next
  case (Cons e es)
  then show ?case by (cases es) (auto split: option.splits)
qed

lemma signatureBeforeStop_next:
  "signatureBeforeStop (pre @ e # post) \<Longrightarrow> signatureIndex e = Some i \<Longrightarrow>
   \<exists>post'. post = ContentBlockStop i # post'"
proof (induction pre)
  case Nil
  then show ?case by (cases post) auto
next
  case (Cons p pre)
  then show ?case by simp
qed

lemma closeCurrentBlock_signature:
  "closeCurrentBlock a = (evs, a') \<Longrightarrow> signatureBeforeStop evs"
  by (auto simp: closeCurrentBlock_def Let_def split: if_splits)

lemma closeCurrentBlock_inv:
  "anthropicInv a \<Longrightarrow> closeCurrentBlock a = (evs, a') \<Longrightarrow>
   \<not> contentBlockOpen a' \<and> contentBlockType a' = None \<and> accumulatedReasoningOpaque a' = None"
  by (auto simp: closeCurrentBlock_def anthropicInv_def Let_def split: if_splits)

lemma anthropic_message_start_signature:
  "anthropic_message_start chunk a = (evs, a') \<Longrightarrow> signatureBeforeStop evs"
  by (auto simp: anthropic_message_start_def split: if_splits)

lemma anthropic_message_start_inv:
  "anthropicInv a \<Longrightarrow> anthropic_message_start chunk a = (evs, a') \<Longrightarrow> anthropicInv a'"
  by (auto simp: anthropic_message_start_def anthropicInv_def split: if_splits)

lemma truthy_append: "truthy (Some y) \<Longrightarrow> truthy (Some (x @ y))"
  by (cases x; cases y) simp_all

lemma truthy_or_empty: "truthy x \<Longrightarrow> truthy (Some (or_empty x))"
  by (cases x) (simp_all add: or_empty_def)

lemma anthropic_reasoning_signature:
  assumes "anthropic_reasoning d a = (evs, a')"
  shows "signatureBeforeStop evs"
proof -
  obtain e0 a0 where c: "closeCurrentBlock a = (e0, a0)" by force
  have 0: "signatureBeforeStop e0" using c by (rule closeCurrentBlock_signature)
  have 1: "signatureBeforeStop (e0 @ [ContentBlockStart k b])" for k b
    using 0 by (rule signatureBeforeStop_append) simp
  have 2: "signatureBeforeStop ((e0 @ [ContentBlockStart k b]) @ [ContentBlockDelta j (ThinkingDelta t)])" for k b j t
    using 1 by (rule signatureBeforeStop_append) simp
  show ?thesis
    using assms 1 2 by (auto simp: anthropic_reasoning_def c Let_def split: if_splits)
qed

lemma anthropic_reasoning_inv:
  assumes "anthropicInv a" and "anthropic_reasoning d a = (evs, a')"
  shows "anthropicInv a'"
proof -
  obtain e0 a0 where c: "closeCurrentBlock a = (e0, a0)" by force
  note i0 = closeCurrentBlock_inv [OF assms(1) c]
  have t: "truthy (reasoning_opaque d) \<Longrightarrow> truthy (Some (x @ or_empty (reasoning_opaque d)))" for x
    by (rule truthy_append) (rule truthy_or_empty)
  show ?thesis
    using assms i0 t
    by (auto simp: anthropic_reasoning_def c Let_def anthropicInv_def split: if_splits)
qed

lemma anthropic_content_signature:
  assumes "anthropic_content d a = (evs, a')"
  shows "signatureBeforeStop evs"
proof (cases "truthy (content d)")
  case False
  then show ?thesis using assms by (simp add: anthropic_content_def)
next
  case True
  obtain e1 a1 where c1:
    "(if contentBlockType a = Some Thinking then closeCurrentBlock a else ([], a)) = (e1, a1)"
    by force
  obtain e2 a2 where c2:
    "(if contentBlockType a1 = Some Tool then closeCurrentBlock a1 else ([], a1)) = (e2, a2)"
    by force
  have 1: "signatureBeforeStop e1"
    using c1 by (auto split: if_splits dest: closeCurrentBlock_signature)
  have 2: "signatureBeforeStop e2"
    using c2 by (auto split: if_splits dest: closeCurrentBlock_signature)
  have 3: "signatureBeforeStop (e1 @ e2 @ rest)" if "signatureBeforeStop rest" for rest
    using 1 2 that by (intro signatureBeforeStop_append)
  have "evs = e1 @ e2 @ [ContentBlockStart (contentBlockIndex a2) (TextBlock []),
                         ContentBlockDelta (contentBlockIndex a2) (TextDelta (or_empty (content d)))]
        \<or> evs = e1 @ e2 @ [ContentBlockDelta (contentBlockIndex a2) (TextDelta (or_empty (content d)))]"
    using assms True by (auto simp: anthropic_content_def c1 c2 Let_def split: if_splits)
  then show ?thesis using 3 by auto
qed

lemma anthropic_content_inv:
  assumes "anthropicInv a" and "anthropic_content d a = (evs, a')"
  shows "anthropicInv a'"
proof (cases "truthy (content d)")
  case False
  then show ?thesis using assms by (simp add: anthropic_content_def)
next
  case True
  obtain e1 a1 where c1:
    "(if contentBlockType a = Some Thinking then closeCurrentBlock a else ([], a)) = (e1, a1)"
    by force
  obtain e2 a2 where c2:
    "(if contentBlockType a1 = Some Tool then closeCurrentBlock a1 else ([], a1)) = (e2, a2)"
    by force
  have 1: "anthropicInv a1 \<and> contentBlockType a1 \<noteq> Some Thinking"
    using c1 assms(1) closeCurrentBlock_inv [OF assms(1), of e1 a1]
    by (auto simp: anthropicInv_def split: if_splits)
  have 2: "anthropicInv a2 \<and> contentBlockType a2 \<noteq> Some Thinking"
    using c2 1 closeCurrentBlock_inv [of a1 e2 a2]
    by (auto simp: anthropicInv_def split: if_splits)
  have "a' = a2\<lparr>contentBlockOpen := True, contentBlockType := Some Text\<rparr> \<and> \<not> contentBlockOpen a2
        \<or> a' = a2 \<and> contentBlockOpen a2"
    using assms(2) True by (auto simp: anthropic_content_def c1 c2 Let_def split: if_splits)
  then show ?thesis using 2 by (auto simp: anthropicInv_def)
qed

lemma anthropic_tool_call_signature:
  assumes "anthropic_tool_call tc a = (evs, a')"
  shows "signatureBeforeStop evs"
proof -
  obtain e0 a0 where c:
    "(if contentBlockOpen a then closeCurrentBlock a else ([], a)) = (e0, a0)" by force
  have 0: "signatureBeforeStop e0"
    using c by (auto split: if_splits dest: closeCurrentBlock_signature)
  have 1: "signatureBeforeStop (e0 @ [ContentBlockStart k b])" for k b
    using 0 by (rule signatureBeforeStop_append) simp
  have 2: "signatureBeforeStop ((e0 @ [ContentBlockStart k b]) @ [ContentBlockDelta j (InputJsonDelta t)])"
    for k b j t
    using 1 by (rule signatureBeforeStop_append) simp
  show ?thesis
    using assms 1 2
    by (auto simp: anthropic_tool_call_def c Let_def split: if_splits option.splits)
qed

lemma anthropic_tool_call_inv:
  assumes "anthropicInv a" and "anthropic_tool_call tc a = (evs, a')"
  shows "anthropicInv a'"
proof -
  obtain e0 a0 where c:
    "(if contentBlockOpen a then closeCurrentBlock a else ([], a)) = (e0, a0)" by force
  have 0: "accumulatedReasoningOpaque a0 = None"
    using c assms(1) closeCurrentBlock_inv [OF assms(1), of e0 a0]
    by (auto simp: anthropicInv_def split: if_splits)
  have "a' = a \<or> (\<exists>m. a' = a0\<lparr>toolCalls := m, contentBlockOpen := True,
                                  contentBlockType := Some Tool\<rparr>)"
    using assms(2) by (auto simp: anthropic_tool_call_def c Let_def split: if_splits)
  then show ?thesis
    using assms(1) 0 by (auto simp: anthropicInv_def)
qed

lemma anthropic_tool_calls_signature:
  "anthropic_tool_calls tcs a = (evs, a') \<Longrightarrow> signatureBeforeStop evs"
proof (induction tcs arbitrary: a evs a')
  case Nil
  then show ?case by simp
next
  case (Cons tc tcs)
  obtain e1 a1 where x: "anthropic_tool_call tc a = (e1, a1)" by force
  obtain e2 a2 where y: "anthropic_tool_calls tcs a1 = (e2, a2)" by force
  have "evs = e1 @ e2" using Cons.prems by (simp add: x y)
  then show ?case
    using anthropic_tool_call_signature [OF x] Cons.IH [OF y]
    by (simp add: signatureBeforeStop_append)
qed

lemma anthropic_tool_calls_inv:
  "anthropicInv a \<Longrightarrow> anthropic_tool_calls tcs a = (evs, a') \<Longrightarrow> anthropicInv a'"
proof (induction tcs arbitrary: a evs a')
  case Nil
  then show ?case by simp
next
  case (Cons tc tcs)
  obtain e1 a1 where x: "anthropic_tool_call tc a = (e1, a1)" by force
  obtain e2 a2 where y: "anthropic_tool_calls tcs a1 = (e2, a2)" by force
  have "a' = a2" using Cons.prems(2) by (simp add: x y)
  then show ?case
    using Cons.IH [OF anthropic_tool_call_inv [OF Cons.prems(1) x] y] by simp
qed

lemma anthropic_finish_signature:
  assumes "anthropic_finish chunk choice a = (evs, a')"
  shows "signatureBeforeStop evs"
proof -
  obtain e0 a0 where c:
    "(if contentBlockOpen a then closeCurrentBlock a else ([], a)) = (e0, a0)" by force
  have 0: "signatureBeforeStop e0"
    using c by (auto split: if_splits dest: closeCurrentBlock_signature)
  have 1: "signatureBeforeStop (e0 @ [MessageDelta k b, MessageStop])" for k b
    using 0 by (rule signatureBeforeStop_append) simp
  show ?thesis
    using assms 1 by (auto simp: anthropic_finish_def c Let_def split: if_splits)
qed

lemma anthropic_finish_inv:
  assumes "anthropicInv a" and "anthropic_finish chunk choice a = (evs, a')"
  shows "anthropicInv a'"
proof -
  obtain e0 a0 where c:
    "(if contentBlockOpen a then closeCurrentBlock a else ([], a)) = (e0, a0)" by force
  have 0: "anthropicInv a0"
    using c assms(1) closeCurrentBlock_inv [OF assms(1), of e0 a0]
    by (auto simp: anthropicInv_def split: if_splits)
  show ?thesis
    using assms 0 by (auto simp: anthropic_finish_def c Let_def split: if_splits)
qed

lemma translateChunkToAnthropicEvents_both:
  assumes "translateChunkToAnthropicEvents chunk a = (evs, a')"
  shows "signatureBeforeStop evs \<and> (anthropicInv a \<longrightarrow> anthropicInv a')"
proof (cases "choices chunk")
  case Nil
  then show ?thesis using assms by (auto simp: translateChunkToAnthropicEvents_def)
next
  case (Cons choice others)
  obtain e0 a0 where p0: "anthropic_message_start chunk a = (e0, a0)" by force
  obtain e1 a1 where p1: "anthropic_reasoning (delta choice) a0 = (e1, a1)" by force
  obtain e2 a2 where p2: "anthropic_content (delta choice) a1 = (e2, a2)" by force
  obtain e3 a3 where p3:
    "(case tool_calls (delta choice) of None \<Rightarrow> ([], a2)
      | Some tcs \<Rightarrow> anthropic_tool_calls tcs a2) = (e3, a3)" by force
  obtain e4 a4 where p4: "anthropic_finish chunk choice a3 = (e4, a4)" by force
  have r: "evs = e0 @ e1 @ e2 @ e3 @ e4" "a' = a4"
    using assms Cons by (simp_all add: translateChunkToAnthropicEvents_def p0 p1 p2 p3 p4)
  have s3: "signatureBeforeStop e3"
    using p3 by (auto split: option.splits dest: anthropic_tool_calls_signature)
  have sig: "signatureBeforeStop evs"
    unfolding r
    by (intro signatureBeforeStop_append anthropic_message_start_signature [OF p0]
        anthropic_reasoning_signature [OF p1] anthropic_content_signature [OF p2] s3
        anthropic_finish_signature [OF p4])
  have inv: "anthropicInv a4" if i: "anthropicInv a"
  proof -
    note i0 = anthropic_message_start_inv [OF i p0]
    note i1 = anthropic_reasoning_inv [OF i0 p1]
    note i2 = anthropic_content_inv [OF i1 p2]
    have i3: "anthropicInv a3"
      using p3 i2 by (auto split: option.splits dest: anthropic_tool_calls_inv)
    show ?thesis using anthropic_finish_inv [OF i3 p4] .
  qed
  show ?thesis using sig inv r by simp
qed

lemma translateAnthropicChunks_both:
  "translateAnthropicChunks cs a = (evs, a') \<Longrightarrow>
   signatureBeforeStop evs \<and> (anthropicInv a \<longrightarrow> anthropicInv a')"
proof (induction cs arbitrary: a evs a')
  case Nil
  then show ?case by simp
next
  case (Cons c cs)
  obtain e1 a1 where x: "translateChunkToAnthropicEvents c a = (e1, a1)" by force
  obtain e2 a2 where y: "translateAnthropicChunks cs a1 = (e2, a2)" by force
  have r: "evs = e1 @ e2" "a' = a2" using Cons.prems by (simp_all add: x y)
  show ?case
    using translateChunkToAnthropicEvents_both [OF x] Cons.IH [OF y] r
    by (simp add: signatureBeforeStop_append)
qed

lemma initial_anthropicInv: "anthropicInv initialAnthropicStreamState"
  by (simp add: anthropicInv_def initialAnthropicStreamState_def)

subsection \<open>Closing a block resets the state\<close>

lemma handleTextDelta_started:
  "handleTextDelta s t = (evs, s') \<Longrightarrow> messageStarted s'"
  by (auto simp: handleTextDelta_def startTextMessage_def generateItemId_def Let_def
      split: if_splits prod.splits)

lemma handleToolCall_textInv:
  assumes "textInv s" and "handleToolCall s tc = (evs, s')"
  shows "textInv s'"
proof (cases "messageStarted s")
  case True
  from handleToolCall_open [OF True assms(2)] show ?thesis
    using True by (auto simp: textInv_def sameOpenBlock_def blockClosed_def)
next
  case False
  from handleToolCall_closed [OF False assms(2)] show ?thesis
    using assms(1) False by (simp add: textInv_def)
qed

lemma handleToolCalls_textInv:
  "textInv s \<Longrightarrow> handleToolCalls s tcs = (evs, s') \<Longrightarrow> textInv s'"
proof (induction tcs arbitrary: s evs s')
  case Nil
  then show ?case by simp
next
  case (Cons tc tcs)
  obtain e1 s1 where a: "handleToolCall s tc = (e1, s1)" by force
  obtain e2 s2 where b: "handleToolCalls s1 tcs = (e2, s2)" by force
  have "s' = s2" using Cons.prems(2) by (simp add: a b)
  then show ?case
    using Cons.IH [OF handleToolCall_textInv [OF Cons.prems(1) a] b] by simp
qed

lemma handleFinish_textInv:
  assumes "textInv s" and "handleFinish s chunk r = (evs, s')"
  shows "textInv s'"
proof (cases "messageStarted s")
  case True
  from handleFinish_open [OF True assms(2)] show ?thesis by (auto simp: textInv_def)
next
  case False
  from handleFinish_closed [OF False assms(2)] show ?thesis
    using assms(1) False by (auto simp: textInv_def)
qed

lemma translateChunkToEvents_textInv:
  assumes "textInv s" and "translateChunkToEvents chunk s = (evs, s')"
  shows "textInv s'"
proof (cases "choices chunk")
  case Nil
  then have "s' = updateUsageFromChunk s chunk"
    using assms(2) by (simp add: translateChunkToEvents_def)
  then show ?thesis
    using assms(1) updateUsageFromChunk_frame [of s chunk] by (simp add: textInv_def)
next
  case (Cons choice others)
  obtain e1 s1 where a:
    "(if truthy (content (delta choice))
      then handleTextDelta s (or_empty (content (delta choice))) else ([], s)) = (e1, s1)"
    by force
  obtain e2 s2 where b:
    "(case tool_calls (delta choice) of None \<Rightarrow> ([], s1)
      | Some tcs \<Rightarrow> handleToolCalls s1 tcs) = (e2, s2)"
    by force
  obtain e3 s3 where c:
    "(if truthy (finish_reason choice)
      then handleFinish s2 chunk (or_empty (finish_reason choice)) else ([], s2)) = (e3, s3)"
    by force
  have r: "s' = s3" using assms(2) Cons by (simp add: translateChunkToEvents_def a b c)
  have 1: "textInv s1"
    using a assms(1) by (auto simp: textInv_def split: if_splits dest: handleTextDelta_started)
  have 2: "textInv s2"
    using b 1 by (auto split: option.splits dest: handleToolCalls_textInv)
  have 3: "textInv s3"
    using c 2 by (auto split: if_splits dest: handleFinish_textInv)
  show ?thesis using 3 r by simp
qed

lemma translateChunks_textInv:
  "textInv s \<Longrightarrow> translateChunks cs s = (evs, s') \<Longrightarrow> textInv s'"
proof (induction cs arbitrary: s evs s')
  case Nil
  then show ?case by simp
next
  case (Cons c cs)
  obtain e1 s1 where a: "translateChunkToEvents c s = (e1, s1)" by force
  obtain e2 s2 where b: "translateChunks cs s1 = (e2, s2)" by force
  have "s' = s2" using Cons.prems(2) by (simp add: a b)
  then show ?case
    using Cons.IH [OF translateChunkToEvents_textInv [OF Cons.prems(1) a] b] by simp
qed

text \<open>
  C2. Closing the text block of the Response-API-style translator always leaves
  accumulatedText empty and messageStarted false; closing an open block of the
  Anthropic-style translator leaves contentBlockOpen false and contentBlockType null.
  Both translators close a block through these two functions only, whatever the trigger.
  Moreover, along every sequence of chunks, the Response-API-style state keeps the
  invariant that accumulatedText is empty whenever no text block is open, so a new text
  block never starts from the text of an earlier one; and in every state the
  Anthropic-style translator reaches from the initial one, a block is marked open exactly
  when a block type is set.
\<close>

theorem block_close_resets_state:
  "accumulatedText (snd (closeTextMessage s)) = []
   \<and> \<not> messageStarted (snd (closeTextMessage s))
   \<and> (contentBlockOpen a \<longrightarrow>
        \<not> contentBlockOpen (snd (closeCurrentBlock a))
        \<and> contentBlockType (snd (closeCurrentBlock a)) = None)
   \<and> (messageStarted s0 \<or> accumulatedText s0 = [] \<longrightarrow>
        messageStarted (snd (translateChunks cs s0))
        \<or> accumulatedText (snd (translateChunks cs s0)) = [])
   \<and> (contentBlockOpen (snd (translateAnthropicChunks cs initialAnthropicStreamState))
        \<longleftrightarrow> contentBlockType (snd (translateAnthropicChunks cs initialAnthropicStreamState))
              \<noteq> None)"
proof -
  have 1: "accumulatedText (snd (closeTextMessage s)) = []
           \<and> \<not> messageStarted (snd (closeTextMessage s))"
    by (simp add: closeTextMessage_def Let_def)
  have 2: "contentBlockOpen a \<longrightarrow>
        \<not> contentBlockOpen (snd (closeCurrentBlock a))
        \<and> contentBlockType (snd (closeCurrentBlock a)) = None"
    by (simp add: closeCurrentBlock_def Let_def split: prod.splits)
  have 3: "messageStarted s0 \<or> accumulatedText s0 = [] \<longrightarrow>
        messageStarted (snd (translateChunks cs s0))
        \<or> accumulatedText (snd (translateChunks cs s0)) = []"
    using translateChunks_textInv [of s0 cs "fst (translateChunks cs s0)" "snd (translateChunks cs s0)"]
    by (simp add: textInv_def)
  obtain evs0 a0 where run0:
    "translateAnthropicChunks cs initialAnthropicStreamState = (evs0, a0)" by force
  have "anthropicInv a0"
    using translateAnthropicChunks_both [OF run0] initial_anthropicInv by simp
  then have 4: "contentBlockOpen a0 \<longleftrightarrow> contentBlockType a0 \<noteq> None"
    by (simp add: anthropicInv_def)
  show ?thesis unfolding run0 snd_conv using 1 2 3 4 by blast
qed

theorem block_close_resets_state_witness:
  "contentBlockOpen openTextBlockState
   \<and> (messageStarted exampleState \<or> accumulatedText exampleState = [])
   \<and> accumulatedText (snd (translateChunks [textChunk ''Hello''] exampleState)) = ''Hello''
   \<and> accumulatedText (snd (translateChunks [textChunk ''Hello'', toolChunk] exampleState)) = []
   \<and> \<not> messageStarted (snd (translateChunks [textChunk ''Hello'', toolChunk] exampleState))
   \<and> \<not> contentBlockOpen (snd (closeCurrentBlock openTextBlockState))
   \<and> contentBlockType (snd (closeCurrentBlock openTextBlockState)) = None"
proof -
  have h1: "contentBlockOpen openTextBlockState"
    by (simp add: more_example_defs example_defs anthropic_defs Let_def)
  have h2: "messageStarted exampleState \<or> accumulatedText exampleState = []"
    by (simp add: example_defs)
  have e1: "accumulatedText (snd (translateChunks [textChunk ''Hello''] exampleState)) = ''Hello''"
    by (simp add: example_defs responses_defs Let_def)
  have e2: "\<not> messageStarted (snd (translateChunks [textChunk ''Hello'', toolChunk] exampleState))"
    by (simp add: more_example_defs example_defs responses_defs Let_def)
  show ?thesis
    using block_close_resets_state
            [of "exampleState" openTextBlockState exampleState "[textChunk ''Hello'', toolChunk]"]
          h1 h2 e1 e2
    by simp
qed

subsection \<open>The signature delta of a thinking block\<close>

text \<open>
  C4. In the events that the Anthropic-style translator produces for any sequence of chunks,
  from any state, every signature_delta is immediately followed by the content_block_stop
  of the same block index; hence no signature_delta is followed by a thinking_delta.
  Closing an open thinking block that holds an accumulated signature emits exactly the
  signature_delta (carrying the whole accumulated signature) and then the stop, and clears
  the accumulated signature. In every state reachable from the initial one, an accumulated
  signature is non-empty and belongs to an open thinking block.
\<close>

theorem signature_delta_before_stop:
  "signatureBeforeStop (fst (translateAnthropicChunks cs a))
   \<and> (\<forall>pre i sg post.
         fst (translateAnthropicChunks cs a) = pre @ ContentBlockDelta i (SignatureDelta sg) # post
         \<longrightarrow> (\<exists>post'. post = ContentBlockStop i # post'))
   \<and> (\<forall>pre i sg j t post.
         fst (translateAnthropicChunks cs a)
           \<noteq> pre @ ContentBlockDelta i (SignatureDelta sg) # ContentBlockDelta j (ThinkingDelta t) # post)
   \<and> (contentBlockOpen a \<and> contentBlockType a = Some Thinking
        \<and> truthy (accumulatedReasoningOpaque a) \<longrightarrow>
        closeCurrentBlock a
          = ([ContentBlockDelta (contentBlockIndex a)
                (SignatureDelta (or_empty (accumulatedReasoningOpaque a))),
              ContentBlockStop (contentBlockIndex a)],
             a\<lparr>accumulatedReasoningOpaque := None,
               contentBlockIndex := contentBlockIndex a + 1,
               contentBlockOpen := False,
               contentBlockType := None\<rparr>))
   \<and> (accumulatedReasoningOpaque (snd (translateAnthropicChunks cs initialAnthropicStreamState))
         \<noteq> None \<longrightarrow>
        contentBlockOpen (snd (translateAnthropicChunks cs initialAnthropicStreamState))
        \<and> contentBlockType (snd (translateAnthropicChunks cs initialAnthropicStreamState))
            = Some Thinking
        \<and> truthy (accumulatedReasoningOpaque
                     (snd (translateAnthropicChunks cs initialAnthropicStreamState))))"
proof -
  obtain evs a' where run: "translateAnthropicChunks cs a = (evs, a')" by force
  have sig: "signatureBeforeStop evs"
    using translateAnthropicChunks_both [OF run] by simp
  have nxt: "\<exists>post'. post = ContentBlockStop i # post'"
    if "evs = pre @ ContentBlockDelta i (SignatureDelta sg) # post" for pre i sg post
    using signatureBeforeStop_next [of pre "ContentBlockDelta i (SignatureDelta sg)" post i]
          sig that by simp
  have no: "evs \<noteq> pre @ ContentBlockDelta i (SignatureDelta sg)
                    # ContentBlockDelta j (ThinkingDelta t) # post" for pre i sg j t post
    using nxt [of pre i sg "ContentBlockDelta j (ThinkingDelta t) # post"] by auto
  have flush: "contentBlockOpen a \<and> contentBlockType a = Some Thinking
        \<and> truthy (accumulatedReasoningOpaque a) \<longrightarrow>
        closeCurrentBlock a
          = ([ContentBlockDelta (contentBlockIndex a)
                (SignatureDelta (or_empty (accumulatedReasoningOpaque a))),
              ContentBlockStop (contentBlockIndex a)],
             a\<lparr>accumulatedReasoningOpaque := None,
               contentBlockIndex := contentBlockIndex a + 1,
               contentBlockOpen := False,
               contentBlockType := None\<rparr>)"
    by (simp add: closeCurrentBlock_def)
  obtain evs0 a0 where run0:
    "translateAnthropicChunks cs initialAnthropicStreamState = (evs0, a0)" by force
  have "anthropicInv a0"
    using translateAnthropicChunks_both [OF run0] initial_anthropicInv by simp
  then have reach: "accumulatedReasoningOpaque a0 \<noteq> None \<longrightarrow>
        contentBlockOpen a0 \<and> contentBlockType a0 = Some Thinking
        \<and> truthy (accumulatedReasoningOpaque a0)"
    by (auto simp: anthropicInv_def)
  show ?thesis
    unfolding run run0 fst_conv snd_conv
    using sig nxt no flush reach by blast
qed

theorem signature_delta_before_stop_witness:
  "contentBlockOpen thinkingState \<and> contentBlockType thinkingState = Some Thinking
   \<and> truthy (accumulatedReasoningOpaque thinkingState)
   \<and> accumulatedReasoningOpaque
        (snd (translateAnthropicChunks
                [reasoningChunk (Some ''Let me think'') None, reasoningChunk None (Some ''c2ln'')]
                initialAnthropicStreamState)) \<noteq> None
   \<and> fst (closeCurrentBlock thinkingState)
       = [ContentBlockDelta 0 (SignatureDelta ''c2ln''), ContentBlockStop 0]
   \<and> map signatureIndex
        (fst (translateAnthropicChunks
                [reasoningChunk (Some ''Let me think'') None, reasoningChunk None (Some ''c2ln''),
                 reasoningChunk (Some ''...'') (Some ''MQ==''), textChunk ''Hi'',
                 finishChunk ''stop'']
                initialAnthropicStreamState))
       = [None, None, None, None, Some 0, None, None, None, None, None, None]"
proof -
  have st: "thinkingState =
     \<lparr>messageStartSent = True, contentBlockIndex = 0, contentBlockOpen = True,
      contentBlockType = Some Thinking, accumulatedReasoningOpaque = Some ''c2ln'',
      toolCalls = Map.empty\<rparr>"
    by (simp add: thinkingState_def more_example_defs example_defs anthropic_defs Let_def)
  have h: "contentBlockOpen thinkingState \<and> contentBlockType thinkingState = Some Thinking
           \<and> truthy (accumulatedReasoningOpaque thinkingState)"
    by (simp add: st)
  have r: "accumulatedReasoningOpaque
        (snd (translateAnthropicChunks
                [reasoningChunk (Some ''Let me think'') None, reasoningChunk None (Some ''c2ln'')]
                initialAnthropicStreamState)) \<noteq> None"
    using st by (simp add: thinkingState_def)
  have ev: "map signatureIndex
        (fst (translateAnthropicChunks
                [reasoningChunk (Some ''Let me think'') None, reasoningChunk None (Some ''c2ln''),
                 reasoningChunk (Some ''...'') (Some ''MQ==''), textChunk ''Hi'',
                 finishChunk ''stop'']
                initialAnthropicStreamState))
       = [None, None, None, None, Some 0, None, None, None, None, None, None]"
    by (simp add: more_example_defs example_defs anthropic_defs Let_def)
  show ?thesis
    using signature_delta_before_stop
            [of "[reasoningChunk (Some ''Let me think'') None, reasoningChunk None (Some ''c2ln'')]"
                thinkingState]
          h r ev
    by (simp add: st or_empty_def)
qed

subsection \<open>A tool call that receives no arguments\<close>

lemma keepsSlot_refl: "keepsSlot k s s"
  by (simp add: keepsSlot_def)

lemma keepsSlot_trans: "keepsSlot k s s1 \<Longrightarrow> keepsSlot k s1 s2 \<Longrightarrow> keepsSlot k s s2"
  by (simp add: keepsSlot_def)

lemma keepsSlot_same:
  "accumulatedToolCalls s' = accumulatedToolCalls s \<Longrightarrow> keepsSlot k s s'"
  by (simp add: keepsSlot_def)

lemma keepsSlot_update:
  "accumulatedToolCalls s' = AList.update j v (accumulatedToolCalls s) \<Longrightarrow> j \<noteq> k \<Longrightarrow>
   keepsSlot k s s'"
  by (simp add: keepsSlot_def update_conv' distinct_update)

lemma handleTextDelta_tools:
  "handleTextDelta s t = (evs, s') \<Longrightarrow> accumulatedToolCalls s' = accumulatedToolCalls s"
  by (auto simp: handleTextDelta_def startTextMessage_def generateItemId_def Let_def
      split: if_splits prod.splits)

lemma startToolCall_tools:
  "startToolCall s tc = (evs, s') \<Longrightarrow>
   accumulatedToolCalls s' =
     AList.update (tc_index tc)
       \<lparr>ti_id = ''fc_'' @ randomHex s 0, callId = or_empty (tc_id tc),
        ti_name = or_empty (function_name tc), args = [],
        outputIndex = (if messageStarted s then currentOutputIndex s + 1
                       else currentOutputIndex s)\<rparr>
       (accumulatedToolCalls s)"
  by (auto simp: startToolCall_def closeTextMessage_def generateItemId_def Let_def
      split: if_splits prod.splits)

lemma appendToolArguments_tools:
  "appendToolArguments s tc = (evs, s') \<Longrightarrow>
   accumulatedToolCalls s' = accumulatedToolCalls s
   \<or> (\<exists>v. accumulatedToolCalls s' = AList.update (tc_index tc) v (accumulatedToolCalls s))"
  by (auto simp: appendToolArguments_def split: option.splits if_splits)

lemma handleToolCall_keepsSlot_other:
  assumes "handleToolCall s tc = (evs, s')" and "tc_index tc \<noteq> k"
  shows "keepsSlot k s s'"
proof -
  obtain e1 s1 where a:
    "(if truthy (tc_id tc) \<and> truthy (function_name tc)
      then startToolCall s tc else ([], s)) = (e1, s1)"
    by force
  obtain e2 s2 where b:
    "(if truthy (function_arguments tc) then appendToolArguments s1 tc else ([], s1)) = (e2, s2)"
    by force
  have r: "s' = s2" using assms(1) by (simp add: handleToolCall_def a b)
  have 1: "keepsSlot k s s1"
  proof (cases "truthy (tc_id tc) \<and> truthy (function_name tc)")
    case True
    then have "startToolCall s tc = (e1, s1)" using a by simp
    from startToolCall_tools [OF this] show ?thesis
      using assms(2) by (rule keepsSlot_update)
  next
    case False
    then have "s1 = s" using a by auto
    then show ?thesis by (simp add: keepsSlot_refl)
  qed
  have 2: "keepsSlot k s1 s2"
  proof (cases "truthy (function_arguments tc)")
    case True
    then have "appendToolArguments s1 tc = (e2, s2)" using b by simp
    from appendToolArguments_tools [OF this] show ?thesis
      using assms(2) by (auto intro: keepsSlot_update keepsSlot_same)
  next
    case False
    then have "s2 = s1" using b by auto
    then show ?thesis by (simp add: keepsSlot_refl)
  qed
  show ?thesis using keepsSlot_trans [OF 1 2] r by simp
qed

lemma handleToolCall_keepsSlot:
  assumes "handleToolCall s tc = (evs, s')" and "\<not> affectsSlot k tc"
  shows "keepsSlot k s s'"
proof (cases "tc_index tc = k")
  case False
  then show ?thesis using handleToolCall_keepsSlot_other [OF assms(1)] by simp
next
  case True
  then have n: "(truthy (tc_id tc) \<and> truthy (function_name tc)) = False"
               "truthy (function_arguments tc) = False"
    using assms(2) by (auto simp: affectsSlot_def)
  have "s' = s" using assms(1) by (simp add: handleToolCall_def n)
  then show ?thesis by (simp add: keepsSlot_refl)
qed

lemma handleToolCalls_keepsSlot:
  "handleToolCalls s tcs = (evs, s') \<Longrightarrow> \<not> list_ex (affectsSlot k) tcs \<Longrightarrow>
   keepsSlot k s s'"
proof (induction tcs arbitrary: s evs s')
  case Nil
  then show ?case by (simp add: keepsSlot_refl)
next
  case (Cons tc tcs)
  obtain e1 s1 where a: "handleToolCall s tc = (e1, s1)" by force
  obtain e2 s2 where b: "handleToolCalls s1 tcs = (e2, s2)" by force
  have r: "s' = s2" using Cons.prems(1) by (simp add: a b)
  have n: "\<not> affectsSlot k tc" "\<not> list_ex (affectsSlot k) tcs"
    using Cons.prems(2) by simp_all
  show ?case
    using keepsSlot_trans [OF handleToolCall_keepsSlot [OF a n(1)] Cons.IH [OF b n(2)]] r
    by simp
qed

lemma handleFinish_tools:
  "handleFinish s chunk r = (evs, s') \<Longrightarrow> accumulatedToolCalls s' = accumulatedToolCalls s"
  by (auto simp: handleFinish_def closeTextMessage_def completeToolCalls_def
      updateUsageFromChunk_def Let_def split: if_splits option.splits)

lemma translateChunkToEvents_keepsSlot:
  assumes "translateChunkToEvents chunk s = (evs, s')" and "\<not> touchesSlot k chunk"
  shows "keepsSlot k s s'"
proof (cases "choices chunk")
  case Nil
  then have "s' = updateUsageFromChunk s chunk"
    using assms(1) by (simp add: translateChunkToEvents_def)
  then show ?thesis
    by (auto simp: updateUsageFromChunk_def split: option.splits intro: keepsSlot_same)
next
  case (Cons choice others)
  obtain e1 s1 where a:
    "(if truthy (content (delta choice))
      then handleTextDelta s (or_empty (content (delta choice))) else ([], s)) = (e1, s1)"
    by force
  obtain e2 s2 where b:
    "(case tool_calls (delta choice) of None \<Rightarrow> ([], s1)
      | Some tcs \<Rightarrow> handleToolCalls s1 tcs) = (e2, s2)"
    by force
  obtain e3 s3 where c:
    "(if truthy (finish_reason choice)
      then handleFinish s2 chunk (or_empty (finish_reason choice)) else ([], s2)) = (e3, s3)"
    by force
  have r: "s' = s3" using assms(1) Cons by (simp add: translateChunkToEvents_def a b c)
  have 1: "keepsSlot k s s1"
    using a by (auto split: if_splits intro: keepsSlot_same keepsSlot_refl
        dest: handleTextDelta_tools)
  have 2: "keepsSlot k s1 s2"
    using b assms(2) Cons
    by (auto simp: touchesSlot_def split: option.splits
        intro: keepsSlot_refl handleToolCalls_keepsSlot)
  have 3: "keepsSlot k s2 s3"
    using c by (auto split: if_splits intro: keepsSlot_same keepsSlot_refl
        dest: handleFinish_tools)
  show ?thesis using keepsSlot_trans [OF keepsSlot_trans [OF 1 2] 3] r by simp
qed

lemma translateChunks_keepsSlot:
  "translateChunks cs s = (evs, s') \<Longrightarrow> \<not> list_ex (touchesSlot k) cs \<Longrightarrow> keepsSlot k s s'"
proof (induction cs arbitrary: s evs s')
  case Nil
  then show ?case by (simp add: keepsSlot_refl)
next
  case (Cons c cs)
  obtain e1 s1 where a: "translateChunkToEvents c s = (e1, s1)" by force
  obtain e2 s2 where b: "translateChunks cs s1 = (e2, s2)" by force
  have r: "s' = s2" using Cons.prems(1) by (simp add: a b)
  have n: "\<not> touchesSlot k c" "\<not> list_ex (touchesSlot k) cs"
    using Cons.prems(2) by simp_all
  show ?case
    using keepsSlot_trans [OF translateChunkToEvents_keepsSlot [OF a n(1)] Cons.IH [OF b n(2)]] r
    by simp
qed

lemma handleToolCall_registers:
  assumes "truthy (tc_id tc)" and "truthy (function_name tc)"
      and "\<not> truthy (function_arguments tc)"
      and "handleToolCall s tc = (evs, s')"
  shows "map_of (accumulatedToolCalls s') (tc_index tc)
           = Some \<lparr>ti_id = ''fc_'' @ randomHex s 0, callId = or_empty (tc_id tc),
                   ti_name = or_empty (function_name tc), args = [],
                   outputIndex = (if messageStarted s then currentOutputIndex s + 1
                                  else currentOutputIndex s)\<rparr>
         \<and> (distinct (map fst (accumulatedToolCalls s))
              \<longrightarrow> distinct (map fst (accumulatedToolCalls s')))"
proof -
  have "startToolCall s tc = (evs, s')"
    using assms by (simp add: handleToolCall_def split: prod.splits)
  from startToolCall_tools [OF this] show ?thesis
    by (simp add: update_conv' distinct_update)
qed

lemma distinct_key_count:
  "distinct (map fst l) \<Longrightarrow> map_of l k = Some v \<Longrightarrow>
   length (filter (\<lambda>e. fst e = k) l) = 1"
proof (induction l)
  case Nil
  then show ?case by simp
next
  case (Cons e l)
  show ?case
  proof (cases "fst e = k")
    case True
    then have "k \<notin> fst ` set l" using Cons.prems(1) by auto
    then have "filter (\<lambda>e. fst e = k) l = []" by (auto simp: filter_empty_conv)
    then show ?thesis using True by simp
  next
    case False
    then show ?thesis using Cons by (cases e) auto
  qed
qed

lemma completeToolCalls_slot:
  assumes "map_of (accumulatedToolCalls s) k = Some info"
      and "completeToolCalls s = (evs, s')"
  shows "\<exists>pre post.
           evs = pre @ [FunctionCallArgumentsDone (ti_id info) (outputIndex info) (args info),
                        OutputItemDone (outputIndex info) (completedToolCall info)] @ post"
proof -
  have "(k, info) \<in> set (accumulatedToolCalls s)"
    using assms(1) by (rule map_of_SomeD)
  then obtain xs ys where l: "accumulatedToolCalls s = xs @ (k, info) # ys"
    by (auto simp: in_set_conv_decomp)
  show ?thesis
    using assms(2) unfolding completeToolCalls_def l by auto
qed

lemma handleFinish_slot:
  assumes "map_of (accumulatedToolCalls s) k = Some info"
      and "handleFinish s chunk r = (evs, s')"
  shows "\<exists>pre post.
           evs = pre @ [FunctionCallArgumentsDone (ti_id info) (outputIndex info) (args info),
                        OutputItemDone (outputIndex info) (completedToolCall info)] @ post"
proof -
  obtain e1 s1 where a: "(if messageStarted s then closeTextMessage s else ([], s)) = (e1, s1)"
    by force
  obtain e2 s2 where b: "completeToolCalls s1 = (e2, s2)" by force
  have t: "accumulatedToolCalls s1 = accumulatedToolCalls s"
    using a by (auto split: if_splits dest: closeTextMessage_effect)
  obtain pre post where e2:
    "e2 = pre @ [FunctionCallArgumentsDone (ti_id info) (outputIndex info) (args info),
                 OutputItemDone (outputIndex info) (completedToolCall info)] @ post"
    using completeToolCalls_slot [OF _ b, of k info] assms(1) t by auto
  have "\<exists>last. evs = e1 @ e2 @ [last]"
    using assms(2) by (auto simp: handleFinish_def a b Let_def)
  then obtain l where "evs = (e1 @ pre)
        @ [FunctionCallArgumentsDone (ti_id info) (outputIndex info) (args info),
           OutputItemDone (outputIndex info) (completedToolCall info)] @ (post @ [l])"
    using e2 by auto
  then show ?thesis by blast
qed

lemma handleFinish_items:
  assumes "handleFinish s chunk r = (evs, s')"
  shows "\<exists>msgs. outputItems s'
                  = outputItems s @ msgs
                    @ map (\<lambda>(slot, toolInfo). completedToolCall toolInfo) (accumulatedToolCalls s)
               \<and> list_all isMessage msgs"
proof -
  obtain e1 s1 where a: "(if messageStarted s then closeTextMessage s else ([], s)) = (e1, s1)"
    by force
  obtain e2 s2 where b: "completeToolCalls s1 = (e2, s2)" by force
  have r: "s' = updateUsageFromChunk s2 chunk"
    using assms by (auto simp: handleFinish_def a b Let_def)
  have 1: "\<exists>msgs. outputItems s1 = outputItems s @ msgs \<and> list_all isMessage msgs
           \<and> accumulatedToolCalls s1 = accumulatedToolCalls s"
  proof (cases "messageStarted s")
    case True
    then have "closeTextMessage s = (e1, s1)" using a by simp
    from closeTextMessage_effect [OF this] show ?thesis
      by (auto simp: completedMessage_def)
  next
    case False
    then have "s1 = s" using a by simp
    then show ?thesis by simp
  qed
  show ?thesis
    using 1 completeToolCalls_effect [OF b] r updateUsageFromChunk_frame [of s2 chunk]
    by auto
qed

lemma handleToolCalls_items:
  assumes "handleToolCalls s tcs = (evs, s')"
  shows "\<exists>msgs. outputItems s' = outputItems s @ msgs \<and> list_all isMessage msgs"
proof (cases "messageStarted s")
  case True
  from handleToolCalls_open [OF True assms] show ?thesis
    by (auto simp: sameOpenBlock_def blockClosed_def completedMessage_def)
next
  case False
  from handleToolCalls_closed [OF False assms] show ?thesis by simp
qed

lemma handleTextDelta_items:
  "handleTextDelta s t = (evs, s') \<Longrightarrow> outputItems s' = outputItems s"
  by (auto simp: handleTextDelta_def startTextMessage_def generateItemId_def Let_def
      split: if_splits prod.splits)

lemma finish_chunk_slot:
  assumes "choices fin = choice # others"
      and "truthy (finish_reason choice)"
      and "\<not> touchesSlot k fin"
      and "translateChunkToEvents fin s = (evs, s')"
      and "map_of (accumulatedToolCalls s) k = Some info"
      and "distinct (map fst (accumulatedToolCalls s))"
  shows "(\<exists>pre post.
           evs = pre @ [FunctionCallArgumentsDone (ti_id info) (outputIndex info) (args info),
                        OutputItemDone (outputIndex info) (completedToolCall info)] @ post)
         \<and> (\<exists>msgs. outputItems s'
                      = outputItems s @ msgs
                        @ map (\<lambda>(slot, toolInfo). completedToolCall toolInfo)
                            (accumulatedToolCalls s')
                    \<and> list_all isMessage msgs)
         \<and> map_of (accumulatedToolCalls s') k = Some info
         \<and> length (filter (\<lambda>e. fst e = k) (accumulatedToolCalls s')) = 1"
proof -
  obtain e1 s1 where a:
    "(if truthy (content (delta choice))
      then handleTextDelta s (or_empty (content (delta choice))) else ([], s)) = (e1, s1)"
    by force
  obtain e2 s2 where b:
    "(case tool_calls (delta choice) of None \<Rightarrow> ([], s1)
      | Some tcs \<Rightarrow> handleToolCalls s1 tcs) = (e2, s2)"
    by force
  obtain e3 s3 where c: "handleFinish s2 fin (or_empty (finish_reason choice)) = (e3, s3)"
    by force
  have r: "evs = e1 @ e2 @ e3" "s' = s3"
    using assms(1,2,4) by (simp_all add: translateChunkToEvents_def a b c)
  have 1: "accumulatedToolCalls s1 = accumulatedToolCalls s \<and> outputItems s1 = outputItems s"
    using a by (auto split: if_splits dest: handleTextDelta_tools handleTextDelta_items)
  have 2: "keepsSlot k s1 s2"
    using b assms(1,3)
    by (auto simp: touchesSlot_def split: option.splits
        intro: keepsSlot_refl handleToolCalls_keepsSlot)
  have oi2: "\<exists>msgs. outputItems s2 = outputItems s1 @ msgs \<and> list_all isMessage msgs"
    using b by (auto split: option.splits dest: handleToolCalls_items)
  have slot: "map_of (accumulatedToolCalls s2) k = Some info"
             "distinct (map fst (accumulatedToolCalls s2))"
    using 1 2 assms(5,6) by (simp_all add: keepsSlot_def)
  have t3: "accumulatedToolCalls s3 = accumulatedToolCalls s2"
    using c by (rule handleFinish_tools)
  obtain pre post where e3:
    "e3 = pre @ [FunctionCallArgumentsDone (ti_id info) (outputIndex info) (args info),
                 OutputItemDone (outputIndex info) (completedToolCall info)] @ post"
    using handleFinish_slot [OF slot(1) c] by blast
  have ev: "evs = (e1 @ e2 @ pre)
        @ [FunctionCallArgumentsDone (ti_id info) (outputIndex info) (args info),
           OutputItemDone (outputIndex info) (completedToolCall info)] @ post"
    using r(1) e3 by simp
  obtain m1 where m1: "outputItems s2 = outputItems s1 @ m1" "list_all isMessage m1"
    using oi2 by blast
  obtain m2 where m2:
    "outputItems s3 = outputItems s2 @ m2
       @ map (\<lambda>(slot, toolInfo). completedToolCall toolInfo) (accumulatedToolCalls s2)"
    "list_all isMessage m2"
    using handleFinish_items [OF c] by blast
  have items: "outputItems s3 = outputItems s @ (m1 @ m2)
       @ map (\<lambda>(slot, toolInfo). completedToolCall toolInfo) (accumulatedToolCalls s3)
       \<and> list_all isMessage (m1 @ m2)"
    using m1 m2 1 t3 by simp
  have cnt: "length (filter (\<lambda>e. fst e = k) (accumulatedToolCalls s3)) = 1"
    using distinct_key_count [OF slot(2) slot(1)] t3 by simp
  show ?thesis
    unfolding r(2) using ev items slot(1) t3 cnt by metis
qed

lemma handleToolCalls_append:
  "handleToolCalls s (xs @ ys)
     = (let (e1, s1) = handleToolCalls s xs; (e2, s2) = handleToolCalls s1 ys
        in (e1 @ e2, s2))"
  by (induction xs arbitrary: s) (simp_all split: prod.splits)

lemma handleToolCall_distinct:
  assumes "handleToolCall s tc = (evs, s')"
      and "distinct (map fst (accumulatedToolCalls s))"
  shows "distinct (map fst (accumulatedToolCalls s'))"
proof -
  obtain e1 s1 where a:
    "(if truthy (tc_id tc) \<and> truthy (function_name tc)
      then startToolCall s tc else ([], s)) = (e1, s1)"
    by force
  obtain e2 s2 where b:
    "(if truthy (function_arguments tc) then appendToolArguments s1 tc else ([], s1)) = (e2, s2)"
    by force
  have r: "s' = s2" using assms(1) by (simp add: handleToolCall_def a b)
  have 1: "distinct (map fst (accumulatedToolCalls s1))"
  proof (cases "truthy (tc_id tc) \<and> truthy (function_name tc)")
    case True
    then have "startToolCall s tc = (e1, s1)" using a by simp
    from startToolCall_tools [OF this] show ?thesis
      using assms(2) by (simp add: distinct_update)
  next
    case False
    then have "s1 = s" using a by auto
    then show ?thesis using assms(2) by simp
  qed
  have 2: "distinct (map fst (accumulatedToolCalls s2))"
  proof (cases "truthy (function_arguments tc)")
    case True
    then have "appendToolArguments s1 tc = (e2, s2)" using b by simp
    from appendToolArguments_tools [OF this] show ?thesis
      using 1 by (auto simp: distinct_update)
  next
    case False
    then have "s2 = s1" using b by auto
    then show ?thesis using 1 by simp
  qed
  show ?thesis using 2 r by simp
qed

lemma handleToolCalls_distinct:
  "handleToolCalls s tcs = (evs, s') \<Longrightarrow> distinct (map fst (accumulatedToolCalls s)) \<Longrightarrow>
   distinct (map fst (accumulatedToolCalls s'))"
proof (induction tcs arbitrary: s evs s')
  case Nil
  then show ?case by simp
next
  case (Cons tc tcs)
  obtain e1 s1 where a: "handleToolCall s tc = (e1, s1)" by force
  obtain e2 s2 where b: "handleToolCalls s1 tcs = (e2, s2)" by force
  have r: "s' = s2" using Cons.prems(1) by (simp add: a b)
  show ?case
    using Cons.IH [OF b handleToolCall_distinct [OF a Cons.prems(2)]] r by simp
qed

lemma handleToolCall_announces:
  assumes "truthy (tc_id tc)" and "truthy (function_name tc)"
      and "\<not> truthy (function_arguments tc)"
      and "handleToolCall s tc = (evs, s')"
  shows "\<exists>fcid idx.
           OutputItemAdded idx
             (FunctionCallOutput fcid (or_empty (tc_id tc)) (or_empty (function_name tc)) []
                InProgress) \<in> set evs
           \<and> map_of (accumulatedToolCalls s') (tc_index tc)
               = Some \<lparr>ti_id = fcid, callId = or_empty (tc_id tc),
                       ti_name = or_empty (function_name tc), args = [], outputIndex = idx\<rparr>"
proof -
  have st: "startToolCall s tc = (evs, s')"
    using assms by (simp add: handleToolCall_def split: prod.splits)
  have ev: "OutputItemAdded (if messageStarted s then currentOutputIndex s + 1
                              else currentOutputIndex s)
             (FunctionCallOutput (''fc_'' @ randomHex s 0) (or_empty (tc_id tc))
                (or_empty (function_name tc)) [] InProgress) \<in> set evs"
    using st
    by (auto simp: startToolCall_def closeTextMessage_def generateItemId_def Let_def
        split: if_splits prod.splits)
  show ?thesis
    using ev handleToolCall_registers [OF assms] by blast
qed

lemma registering_chunk:
  assumes keys: "distinct (map fst (accumulatedToolCalls s))"
      and reg1: "choices reg = choice0 # rest0"
      and reg2: "tool_calls (delta choice0) = Some (earlier @ toolCall # following)"
      and reg3: "\<not> truthy (finish_reason choice0)"
      and hasId: "truthy (tc_id toolCall)"
      and hasName: "truthy (function_name toolCall)"
      and noArgs: "\<not> truthy (function_arguments toolCall)"
      and later: "\<not> list_ex (affectsSlot (tc_index toolCall)) following"
      and start: "translateChunkToEvents reg s = (ev1, s1)"
  shows "\<exists>fcid idx.
           OutputItemAdded idx
             (FunctionCallOutput fcid (or_empty (tc_id toolCall))
                (or_empty (function_name toolCall)) [] InProgress) \<in> set ev1
           \<and> map_of (accumulatedToolCalls s1) (tc_index toolCall)
               = Some \<lparr>ti_id = fcid, callId = or_empty (tc_id toolCall),
                       ti_name = or_empty (function_name toolCall), args = [],
                       outputIndex = idx\<rparr>
           \<and> distinct (map fst (accumulatedToolCalls s1))"
proof -
  obtain e0 s0 where a:
    "(if truthy (content (delta choice0))
      then handleTextDelta s (or_empty (content (delta choice0))) else ([], s)) = (e0, s0)"
    by force
  obtain eb sb where b: "handleToolCalls s0 earlier = (eb, sb)" by force
  obtain et st where t: "handleToolCall sb toolCall = (et, st)" by force
  obtain ea sa where c: "handleToolCalls st following = (ea, sa)" by force
  have tcs: "handleToolCalls s0 (earlier @ toolCall # following) = (eb @ et @ ea, sa)"
    by (simp add: handleToolCalls_append b t c)
  have r: "ev1 = e0 @ eb @ et @ ea" "s1 = sa"
    using start reg1 reg2 reg3 by (simp_all add: translateChunkToEvents_def a tcs)
  have k0: "distinct (map fst (accumulatedToolCalls s0))"
    using a keys by (auto split: if_splits dest: handleTextDelta_tools)
  have kb: "distinct (map fst (accumulatedToolCalls sb))"
    using handleToolCalls_distinct [OF b k0] .
  have kt: "distinct (map fst (accumulatedToolCalls st))"
    using handleToolCall_distinct [OF t kb] .
  obtain fcid idx where ann:
    "OutputItemAdded idx
       (FunctionCallOutput fcid (or_empty (tc_id toolCall))
          (or_empty (function_name toolCall)) [] InProgress) \<in> set et"
    "map_of (accumulatedToolCalls st) (tc_index toolCall)
       = Some \<lparr>ti_id = fcid, callId = or_empty (tc_id toolCall),
               ti_name = or_empty (function_name toolCall), args = [], outputIndex = idx\<rparr>"
    using handleToolCall_announces [OF hasId hasName noArgs t] by blast
  have keep: "keepsSlot (tc_index toolCall) st sa"
    using handleToolCalls_keepsSlot [OF c later] .
  have fin: "map_of (accumulatedToolCalls sa) (tc_index toolCall)
       = Some \<lparr>ti_id = fcid, callId = or_empty (tc_id toolCall),
               ti_name = or_empty (function_name toolCall), args = [], outputIndex = idx\<rparr>"
            "distinct (map fst (accumulatedToolCalls sa))"
    using keep ann(2) kt by (simp_all add: keepsSlot_def)
  have "OutputItemAdded idx
       (FunctionCallOutput fcid (or_empty (tc_id toolCall))
          (or_empty (function_name toolCall)) [] InProgress) \<in> set ev1"
    using ann(1) r(1) by simp
  then show ?thesis using fin r(2) by blast
qed

text \<open>
  C6 (amended). Let a chunk without finish reason carry a fragment with an id and a
  function name and without arguments, followed in that chunk by no fragment for the same
  slot that carries arguments or starts a call; let the slot map of the state have distinct
  keys (a JavaScript Map); let any chunks follow that carry no fragment for that slot with
  arguments or with a call start, and then a finish chunk that carries none either. Then
  the first chunk announces the call by an item-added event, and the events of the finish
  chunk contain, next to each other, the arguments-done event and the item-done event of
  that call (same item id and output index), with the empty string as arguments and the
  status "completed". The finish chunk appends to outputItems completed messages (if a text
  block was open) followed by one completed tool item per entry of the slot map, in the
  order of the map, and the slot map holds exactly one entry for the slot of the call, the
  one registered, with empty arguments.
\<close>

theorem tool_call_without_arguments_completed:
  assumes keys: "distinct (map fst (accumulatedToolCalls s))"
      and reg1: "choices reg = choice0 # rest0"
      and reg2: "tool_calls (delta choice0) = Some (earlier @ toolCall # following)"
      and reg3: "\<not> truthy (finish_reason choice0)"
      and hasId: "truthy (tc_id toolCall)"
      and hasName: "truthy (function_name toolCall)"
      and noArgs: "\<not> truthy (function_arguments toolCall)"
      and later: "\<not> list_ex (affectsSlot (tc_index toolCall)) following"
      and start: "translateChunkToEvents reg s = (ev1, s1)"
      and others: "\<not> list_ex (touchesSlot (tc_index toolCall)) cs"
      and middle: "translateChunks cs s1 = (ev2, s2)"
      and fin1: "choices fin = choice # rest"
      and fin2: "truthy (finish_reason choice)"
      and fin3: "\<not> touchesSlot (tc_index toolCall) fin"
      and finish: "translateChunkToEvents fin s2 = (ev3, s3)"
  shows "\<exists>fcid idx.
           OutputItemAdded idx
             (FunctionCallOutput fcid (or_empty (tc_id toolCall))
                (or_empty (function_name toolCall)) [] InProgress) \<in> set ev1
         \<and> (\<exists>pre post.
               ev3 = pre @ [FunctionCallArgumentsDone fcid idx [],
                            OutputItemDone idx
                              (FunctionCallOutput fcid (or_empty (tc_id toolCall))
                                 (or_empty (function_name toolCall)) [] Completed)] @ post)
         \<and> (\<exists>msgs. outputItems s3
                      = outputItems s2 @ msgs
                        @ map (\<lambda>(slot, toolInfo). completedToolCall toolInfo)
                            (accumulatedToolCalls s3)
                    \<and> list_all isMessage msgs)
         \<and> map_of (accumulatedToolCalls s3) (tc_index toolCall)
             = Some \<lparr>ti_id = fcid, callId = or_empty (tc_id toolCall),
                     ti_name = or_empty (function_name toolCall), args = [],
                     outputIndex = idx\<rparr>
         \<and> length (filter (\<lambda>e. fst e = tc_index toolCall) (accumulatedToolCalls s3)) = 1"
proof -
  obtain fcid idx where reg:
    "OutputItemAdded idx
       (FunctionCallOutput fcid (or_empty (tc_id toolCall))
          (or_empty (function_name toolCall)) [] InProgress) \<in> set ev1"
    "map_of (accumulatedToolCalls s1) (tc_index toolCall)
       = Some \<lparr>ti_id = fcid, callId = or_empty (tc_id toolCall),
               ti_name = or_empty (function_name toolCall), args = [], outputIndex = idx\<rparr>"
    "distinct (map fst (accumulatedToolCalls s1))"
    using registering_chunk [OF keys reg1 reg2 reg3 hasId hasName noArgs later start] by blast
  have keep: "keepsSlot (tc_index toolCall) s1 s2"
    using translateChunks_keepsSlot [OF middle others] .
  have slot:
    "map_of (accumulatedToolCalls s2) (tc_index toolCall)
       = Some \<lparr>ti_id = fcid, callId = or_empty (tc_id toolCall),
               ti_name = or_empty (function_name toolCall), args = [], outputIndex = idx\<rparr>"
    "distinct (map fst (accumulatedToolCalls s2))"
    using keep reg(2,3) by (simp_all add: keepsSlot_def)
  show ?thesis
    using finish_chunk_slot [OF fin1 fin2 fin3 finish slot] reg(1)
    by (simp add: completedToolCall_def)
qed


theorem tool_call_without_arguments_completed_witness:
  "distinct (map fst (accumulatedToolCalls helloState))
   \<and> choices (startChunk ''call_1'' ''get_weather'')
       = hd (choices (startChunk ''call_1'' ''get_weather'')) # []
   \<and> tool_calls (delta (hd (choices (startChunk ''call_1'' ''get_weather''))))
       = Some ([] @ startFragment # [])
   \<and> \<not> truthy (finish_reason (hd (choices (startChunk ''call_1'' ''get_weather''))))
   \<and> truthy (tc_id startFragment) \<and> truthy (function_name startFragment)
   \<and> \<not> truthy (function_arguments startFragment)
   \<and> \<not> list_ex (affectsSlot (tc_index startFragment)) []
   \<and> \<not> list_ex (touchesSlot (tc_index startFragment)) [textChunk ''more'']
   \<and> choices (finishChunk ''tool_calls'') = finishChoice ''tool_calls'' # []
   \<and> truthy (finish_reason (finishChoice ''tool_calls''))
   \<and> \<not> touchesSlot (tc_index startFragment) (finishChunk ''tool_calls'')
   \<and> fst (translateChunkToEvents (finishChunk ''tool_calls'')
             (snd (translateChunks [startChunk ''call_1'' ''get_weather'', textChunk ''more'']
                     helloState)))
       = [OutputTextDone ''msg_bbbbbbbbbbbbbbbbbbbbbbbb'' 2 0 ''more'',
          ContentPartDone ''msg_bbbbbbbbbbbbbbbbbbbbbbbb'' 2 0 (OutputText ''more''),
          OutputItemDone 2
            (OutputMessage ''msg_bbbbbbbbbbbbbbbbbbbbbbbb'' Completed [OutputText ''more'']),
          FunctionCallArgumentsDone ''fc_bbbbbbbbbbbbbbbbbbbbbbbb'' 1 [],
          OutputItemDone 1
            (FunctionCallOutput ''fc_bbbbbbbbbbbbbbbbbbbbbbbb'' ''call_1'' ''get_weather'' []
               Completed),
          ResponseCompleted
            (buildFinalResponse
               (snd (translateChunks
                       [startChunk ''call_1'' ''get_weather'', textChunk ''more'',
                        finishChunk ''tool_calls'']
                       helloState))
               ''tool_calls'')]
   \<and> outputItems
        (snd (translateChunks
                [startChunk ''call_1'' ''get_weather'', textChunk ''more'',
                 finishChunk ''tool_calls'']
                helloState))
       = [OutputMessage ''msg_aaaaaaaaaaaaaaaaaaaaaaaa'' Completed [OutputText ''Hello''],
          OutputMessage ''msg_bbbbbbbbbbbbbbbbbbbbbbbb'' Completed [OutputText ''more''],
          FunctionCallOutput ''fc_bbbbbbbbbbbbbbbbbbbbbbbb'' ''call_1'' ''get_weather'' []
            Completed]"
proof -
  have st: "helloState =
      exampleState\<lparr>messageStarted := True,
                    messageItemId := Some ''msg_aaaaaaaaaaaaaaaaaaaaaaaa'',
                    accumulatedText := ''Hello'', totalAccumulatedText := ''Hello'',
                    randomHex := (\<lambda>n. exampleRandomHex (Suc n))\<rparr>"
    by (simp add: helloState_def example_defs responses_defs Let_def)
  have keys: "distinct (map fst (accumulatedToolCalls helloState))"
    by (simp add: st example_defs)
  have reg1: "choices (startChunk ''call_1'' ''get_weather'')
       = hd (choices (startChunk ''call_1'' ''get_weather'')) # []"
    by (simp add: startChunk_def)
  have reg2: "tool_calls (delta (hd (choices (startChunk ''call_1'' ''get_weather''))))
       = Some ([] @ startFragment # [])"
    by (simp add: startChunk_def startFragment_def emptyDelta_def)
  have reg3: "\<not> truthy (finish_reason (hd (choices (startChunk ''call_1'' ''get_weather''))))"
    by (simp add: startChunk_def)
  have hasId: "truthy (tc_id startFragment)" by (simp add: startFragment_def)
  have hasName: "truthy (function_name startFragment)"
    by (simp add: startFragment_def function_name_def)
  have noArgs: "\<not> truthy (function_arguments startFragment)"
    by (simp add: startFragment_def function_arguments_def)
  have later: "\<not> list_ex (affectsSlot (tc_index startFragment)) []" by simp
  have others: "\<not> list_ex (touchesSlot (tc_index startFragment)) [textChunk ''more'']"
    by (simp add: touchesSlot_def example_defs)
  have fin1: "choices (finishChunk ''tool_calls'') = finishChoice ''tool_calls'' # []"
    by (simp add: finishChunk_def)
  have fin2: "truthy (finish_reason (finishChoice ''tool_calls''))"
    by (simp add: finishChoice_def)
  have fin3: "\<not> touchesSlot (tc_index startFragment) (finishChunk ''tool_calls'')"
    by (simp add: touchesSlot_def example_defs)
  have start: "translateChunkToEvents (startChunk ''call_1'' ''get_weather'') helloState
      = (fst (translateChunkToEvents (startChunk ''call_1'' ''get_weather'') helloState),
         snd (translateChunkToEvents (startChunk ''call_1'' ''get_weather'') helloState))"
    by simp
  have middle: "translateChunks [textChunk ''more'']
        (snd (translateChunkToEvents (startChunk ''call_1'' ''get_weather'') helloState))
      = (fst (translateChunks [textChunk ''more'']
           (snd (translateChunkToEvents (startChunk ''call_1'' ''get_weather'') helloState))),
         snd (translateChunks [startChunk ''call_1'' ''get_weather'', textChunk ''more'']
                helloState))"
    by (simp add: split_beta)
  have finish: "translateChunkToEvents (finishChunk ''tool_calls'')
        (snd (translateChunks [startChunk ''call_1'' ''get_weather'', textChunk ''more'']
                helloState))
      = (fst (translateChunkToEvents (finishChunk ''tool_calls'')
           (snd (translateChunks [startChunk ''call_1'' ''get_weather'', textChunk ''more'']
                   helloState))),
         snd (translateChunks
                [startChunk ''call_1'' ''get_weather'', textChunk ''more'',
                 finishChunk ''tool_calls'']
                helloState))"
    by (simp add: split_beta)
  have before_finish:
    "snd (translateChunks [startChunk ''call_1'' ''get_weather'', textChunk ''more''] helloState)
       = helloState\<lparr>outputItems :=
                        [OutputMessage ''msg_aaaaaaaaaaaaaaaaaaaaaaaa'' Completed
                           [OutputText ''Hello'']],
                     currentOutputIndex := 2, messageStarted := True,
                     messageItemId := Some ''msg_bbbbbbbbbbbbbbbbbbbbbbbb'',
                     accumulatedText := ''more'',
                     totalAccumulatedText := ''Hellomore'',
                     randomHex := (\<lambda>n. exampleRandomHex (Suc (Suc (Suc n)))),
                     accumulatedToolCalls :=
                       [(0, \<lparr>ti_id = ''fc_bbbbbbbbbbbbbbbbbbbbbbbb'', callId = ''call_1'',
                              ti_name = ''get_weather'', args = [], outputIndex = 1\<rparr>)]\<rparr>"
    by (simp add: st startChunk_def example_defs responses_defs Let_def)
  have ev: "fst (translateChunkToEvents (finishChunk ''tool_calls'')
             (snd (translateChunks [startChunk ''call_1'' ''get_weather'', textChunk ''more'']
                     helloState)))
       = [OutputTextDone ''msg_bbbbbbbbbbbbbbbbbbbbbbbb'' 2 0 ''more'',
          ContentPartDone ''msg_bbbbbbbbbbbbbbbbbbbbbbbb'' 2 0 (OutputText ''more''),
          OutputItemDone 2
            (OutputMessage ''msg_bbbbbbbbbbbbbbbbbbbbbbbb'' Completed [OutputText ''more'']),
          FunctionCallArgumentsDone ''fc_bbbbbbbbbbbbbbbbbbbbbbbb'' 1 [],
          OutputItemDone 1
            (FunctionCallOutput ''fc_bbbbbbbbbbbbbbbbbbbbbbbb'' ''call_1'' ''get_weather'' []
               Completed),
          ResponseCompleted
            (buildFinalResponse
               (snd (translateChunks
                       [startChunk ''call_1'' ''get_weather'', textChunk ''more'',
                        finishChunk ''tool_calls'']
                       helloState))
               ''tool_calls'')]"
    using finish unfolding before_finish
    by (simp add: st example_defs translateChunkToEvents_def handleFinish_def
        closeTextMessage_def completeToolCalls_def completedToolCall_def or_empty_def
        updateUsageFromChunk_def Let_def split: prod.splits)
  have items: "outputItems
        (snd (translateChunks
                [startChunk ''call_1'' ''get_weather'', textChunk ''more'',
                 finishChunk ''tool_calls'']
                helloState))
       = [OutputMessage ''msg_aaaaaaaaaaaaaaaaaaaaaaaa'' Completed [OutputText ''Hello''],
          OutputMessage ''msg_bbbbbbbbbbbbbbbbbbbbbbbb'' Completed [OutputText ''more''],
          FunctionCallOutput ''fc_bbbbbbbbbbbbbbbbbbbbbbbb'' ''call_1'' ''get_weather'' []
            Completed]"
    by (simp add: st startChunk_def example_defs responses_defs Let_def)
  show ?thesis
    using tool_call_without_arguments_completed
            [OF keys reg1 reg2 reg3 hasId hasName noArgs later start others middle
                fin1 fin2 fin3 finish]
          keys reg1 reg2 reg3 hasId hasName noArgs later others fin1 fin2 fin3 ev items
    by simp
qed

text \<open>
  The claim as stated fails when a second call starts on the same slot before the finish
  chunk: the entry of the slot is replaced, so the first call, although registered and
  without argument fragments, gets no arguments-done event, no item-done event and no
  output item.
\<close>

theorem slot_reuse_counterexample:
  "fst (translateChunks [startChunk ''call_a'' ''get_weather''] exampleState)
     = [OutputItemAdded 0
          (FunctionCallOutput ''fc_aaaaaaaaaaaaaaaaaaaaaaaa'' ''call_a'' ''get_weather'' []
             InProgress)]
   \<and> butlast
        (fst (translateChunks
                [startChunk ''call_a'' ''get_weather'', startChunk ''call_c'' ''get_time'',
                 finishChunk ''tool_calls'']
                exampleState))
     = [OutputItemAdded 0
          (FunctionCallOutput ''fc_aaaaaaaaaaaaaaaaaaaaaaaa'' ''call_a'' ''get_weather'' []
             InProgress),
        OutputItemAdded 1
          (FunctionCallOutput ''fc_bbbbbbbbbbbbbbbbbbbbbbbb'' ''call_c'' ''get_time'' []
             InProgress),
        FunctionCallArgumentsDone ''fc_bbbbbbbbbbbbbbbbbbbbbbbb'' 1 [],
        OutputItemDone 1
          (FunctionCallOutput ''fc_bbbbbbbbbbbbbbbbbbbbbbbb'' ''call_c'' ''get_time'' []
             Completed)]
   \<and> outputItems
        (snd (translateChunks
                [startChunk ''call_a'' ''get_weather'', startChunk ''call_c'' ''get_time'',
                 finishChunk ''tool_calls'']
                exampleState))
     = [FunctionCallOutput ''fc_bbbbbbbbbbbbbbbbbbbbbbbb'' ''call_c'' ''get_time'' []
          Completed]"
  by (simp add: startChunk_def example_defs responses_defs Let_def)

subsection \<open>Text-only streams\<close>

lemma truthy_or_empty_iff: "truthy x \<longleftrightarrow> or_empty x \<noteq> []"
  by (cases x rule: truthy.cases) (simp_all add: or_empty_def)

lemma handleTextDelta_textRun:
  assumes "textRun mid t s" and "txt \<noteq> []" and "handleTextDelta s txt = (evs, s')"
  shows "textRun mid (t @ txt) s'"
proof (cases "t = []")
  case True
  then show ?thesis
    using assms
    by (auto simp: textRun_def handleTextDelta_def startTextMessage_def generateItemId_def
        Let_def)
next
  case False
  then show ?thesis
    using assms by (auto simp: textRun_def handleTextDelta_def Let_def)
qed

lemma text_chunk_textRun:
  assumes "textRun mid t s" and "textOnly chunk" and "\<not> finishes chunk"
      and "translateChunkToEvents chunk s = (evs, s')"
  shows "textRun mid (t @ textOf chunk) s'"
proof -
  obtain choice others where c: "choices chunk = choice # others"
    using assms(2) by (auto simp: textOnly_def split: list.splits)
  have tc: "tool_calls (delta choice) = None" using assms(2) c by (simp add: textOnly_def)
  have fr: "\<not> truthy (finish_reason choice)" using assms(3) c by (simp add: finishes_def)
  have tx: "textOf chunk = or_empty (content (delta choice))" using c by (simp add: textOf_def)
  show ?thesis
  proof (cases "truthy (content (delta choice))")
    case True
    then have "handleTextDelta s (or_empty (content (delta choice))) = (evs, s')"
      using assms(4) c tc fr by (simp add: translateChunkToEvents_def split: prod.splits)
    from handleTextDelta_textRun [OF assms(1) _ this] True show ?thesis
      by (simp add: tx truthy_or_empty_iff)
  next
    case False
    then have "s' = s" using assms(4) c tc fr by (simp add: translateChunkToEvents_def)
    then show ?thesis using assms(1) False by (simp add: tx truthy_or_empty_iff)
  qed
qed

lemma text_chunks_textRun:
  "textRun mid t s \<Longrightarrow> list_all (\<lambda>c. textOnly c \<and> \<not> finishes c) cs \<Longrightarrow>
   translateChunks cs s = (evs, s') \<Longrightarrow> textRun mid (t @ concat (map textOf cs)) s'"
proof (induction cs arbitrary: t s evs s')
  case Nil
  then show ?case by simp
next
  case (Cons c cs)
  obtain e1 s1 where a: "translateChunkToEvents c s = (e1, s1)" by force
  obtain e2 s2 where b: "translateChunks cs s1 = (e2, s2)" by force
  have r: "s' = s2" using Cons.prems(3) by (simp add: a b)
  have c: "textOnly c" "\<not> finishes c" "list_all (\<lambda>c. textOnly c \<and> \<not> finishes c) cs"
    using Cons.prems(2) by simp_all
  from Cons.IH [OF text_chunk_textRun [OF Cons.prems(1) c(1,2) a] c(3) b]
  show ?case by (simp add: r)
qed

lemma translateChunks_append:
  "translateChunks (cs @ ds) s
     = (let (e1, s1) = translateChunks cs s; (e2, s2) = translateChunks ds s1
        in (e1 @ e2, s2))"
  by (induction cs arbitrary: s) (simp_all split: prod.splits)

lemma finalResponse_snoc:
  "finalResponse (evs @ [terminalEvent r resp]) = Some resp"
  by (simp add: finalResponse_def terminalEvent_def)

lemma handleFinish_textRun:
  assumes "textRun mid t s" and "handleFinish s chunk r = (evs, s')"
  shows "\<exists>resp. finalResponse evs = Some resp \<and> resp_output resp = outputItems s'
           \<and> (if t = [] then output_text resp = None \<and> outputItems s' = []
               else output_text resp = Some t
                    \<and> outputItems s' = [OutputMessage mid Completed [OutputText t]])"
proof -
  obtain pre s3 where f:
    "handleFinish s chunk r = (pre @ [terminalEvent r (buildFinalResponse s3 r)], s3)"
    using handleFinish_terminal [of s chunk r] by blast
  have r: "evs = pre @ [terminalEvent r (buildFinalResponse s3 r)]" "s' = s3"
    using assms(2) f by auto
  have out: "resp_output (buildFinalResponse s3 r) = outputItems s3"
            "output_text (buildFinalResponse s3 r)
               = (if totalAccumulatedText s3 \<noteq> [] then Some (totalAccumulatedText s3) else None)"
    by (simp_all add: buildFinalResponse_def buildResponseObject_def)
  have st: "totalAccumulatedText s3 = t
            \<and> outputItems s3 = (if t = [] then []
                                 else [OutputMessage mid Completed [OutputText t]])"
  proof (cases "t = []")
    case True
    then have "\<not> messageStarted s" using assms(1) by (simp add: textRun_def)
    then show ?thesis
      using f assms(1) True
      by (auto simp: handleFinish_def completeToolCalls_def updateUsageFromChunk_def
          textRun_def Let_def split: option.splits)
  next
    case False
    then have "messageStarted s" using assms(1) by (simp add: textRun_def)
    then show ?thesis
      using f assms(1) False
      by (auto simp: handleFinish_def closeTextMessage_def completeToolCalls_def
          updateUsageFromChunk_def textRun_def or_empty_def Let_def split: option.splits)
  qed
  show ?thesis
    unfolding r using finalResponse_snoc [of pre r "buildFinalResponse s3 r"] out st
    by auto
qed

lemma finalResponse_append:
  "finalResponse ys = Some r \<Longrightarrow> finalResponse (xs @ ys) = Some r"
  by (cases "rev ys") (auto simp: finalResponse_def split: ResponseStreamEvent.splits)

lemma finish_chunk_textRun:
  assumes "textRun mid t s" and "textOnly fin" and "finishes fin"
      and "translateChunkToEvents fin s = (evs, s')"
  shows "\<exists>resp. finalResponse evs = Some resp \<and> resp_output resp = outputItems s'
           \<and> (if t @ textOf fin = [] then output_text resp = None \<and> outputItems s' = []
               else output_text resp = Some (t @ textOf fin)
                    \<and> outputItems s' = [OutputMessage mid Completed [OutputText (t @ textOf fin)]])"
proof -
  obtain choice others where c: "choices fin = choice # others"
    using assms(2) by (auto simp: textOnly_def split: list.splits)
  have tc: "tool_calls (delta choice) = None" using assms(2) c by (simp add: textOnly_def)
  have fr: "truthy (finish_reason choice)" using assms(3) c by (simp add: finishes_def)
  have tx: "textOf fin = or_empty (content (delta choice))" using c by (simp add: textOf_def)
  obtain e1 s1 where a:
    "(if truthy (content (delta choice))
      then handleTextDelta s (or_empty (content (delta choice))) else ([], s)) = (e1, s1)"
    by force
  obtain e3 s3 where f: "handleFinish s1 fin (or_empty (finish_reason choice)) = (e3, s3)"
    by force
  have r: "evs = e1 @ e3" "s' = s3"
    using assms(4) c tc fr by (simp_all add: translateChunkToEvents_def a f)
  have run: "textRun mid (t @ textOf fin) s1"
  proof (cases "truthy (content (delta choice))")
    case True
    then have "handleTextDelta s (or_empty (content (delta choice))) = (e1, s1)"
      using a by simp
    from handleTextDelta_textRun [OF assms(1) _ this] True show ?thesis
      by (simp add: tx truthy_or_empty_iff)
  next
    case False
    then have "s1 = s" using a by simp
    then show ?thesis using assms(1) False by (simp add: tx truthy_or_empty_iff)
  qed
  obtain resp where resp: "finalResponse e3 = Some resp" "resp_output resp = outputItems s3"
    "if t @ textOf fin = [] then output_text resp = None \<and> outputItems s3 = []
     else output_text resp = Some (t @ textOf fin)
          \<and> outputItems s3 = [OutputMessage mid Completed [OutputText (t @ textOf fin)]]"
    using handleFinish_textRun [OF run f] by blast
  show ?thesis
    unfolding r using resp finalResponse_append [OF resp(1), of e1] by blast
qed

text \<open>
  C1 (amended). Take a state with no open text block, no accumulated text, no registered
  tool call and no output item (the state createStreamState returns), any sequence of
  chunks whose first choice carries no tool calls and no finish reason, and a finish chunk
  without tool calls. After they are processed in order, the last event carries the
  aggregate response, whose output is the final outputItems. If the concatenation of the
  text fragments in arrival order (a fragment of the finish chunk included) is not empty,
  output_text is that concatenation and
  outputItems is exactly one completed message item holding it. If it is empty (there is no
  text delta, or every fragment is the empty string), output_text is null and outputItems
  is empty.
\<close>

theorem text_only_stream_aggregate:
  assumes notStarted: "\<not> messageStarted s"
      and noText: "accumulatedText s = []" "totalAccumulatedText s = []"
      and noCalls: "accumulatedToolCalls s = []"
      and noItems: "outputItems s = []"
      and deltas: "list_all (\<lambda>c. textOnly c \<and> \<not> finishes c) cs"
      and fin: "textOnly fin" "finishes fin"
      and run: "translateChunks (cs @ [fin]) s = (evs, s')"
  shows "\<exists>resp. finalResponse evs = Some resp \<and> resp_output resp = outputItems s'
           \<and> (if concat (map textOf (cs @ [fin])) = []
               then output_text resp = None \<and> outputItems s' = []
               else output_text resp = Some (concat (map textOf (cs @ [fin])))
                    \<and> outputItems s'
                        = [OutputMessage (''msg_'' @ randomHex s 0) Completed
                             [OutputText (concat (map textOf (cs @ [fin])))]])"
proof -
  obtain e1 s1 where a: "translateChunks cs s = (e1, s1)" by force
  obtain e2 s2 where b: "translateChunkToEvents fin s1 = (e2, s2)" by force
  have r: "evs = e1 @ e2" "s' = s2"
    using run by (simp_all add: translateChunks_append a b)
  have start: "textRun (''msg_'' @ randomHex s 0) [] s"
    using notStarted noText noCalls noItems by (simp add: textRun_def)
  have mid: "textRun (''msg_'' @ randomHex s 0) (concat (map textOf cs)) s1"
    using text_chunks_textRun [OF start deltas a] by simp
  obtain resp where resp: "finalResponse e2 = Some resp" "resp_output resp = outputItems s2"
    "if concat (map textOf cs) @ textOf fin = []
     then output_text resp = None \<and> outputItems s2 = []
     else output_text resp = Some (concat (map textOf cs) @ textOf fin)
          \<and> outputItems s2
              = [OutputMessage (''msg_'' @ randomHex s 0) Completed
                   [OutputText (concat (map textOf cs) @ textOf fin)]]"
    using finish_chunk_textRun [OF mid fin b] by blast
  have cat: "concat (map textOf (cs @ [fin])) = concat (map textOf cs) @ textOf fin"
    by simp
  show ?thesis
    unfolding r cat using resp finalResponse_append [OF resp(1), of e1] by blast
qed

theorem text_only_stream_aggregate_witness:
  "\<not> messageStarted exampleState \<and> accumulatedText exampleState = []
   \<and> totalAccumulatedText exampleState = [] \<and> accumulatedToolCalls exampleState = []
   \<and> outputItems exampleState = []
   \<and> list_all (\<lambda>c. textOnly c \<and> \<not> finishes c) [textChunk ''A'', textChunk ''B'']
   \<and> textOnly (finishChunk ''stop'') \<and> finishes (finishChunk ''stop'')
   \<and> concat (map textOf ([textChunk ''A'', textChunk ''B''] @ [finishChunk ''stop''])) = ''AB''
   \<and> map_option output_text
        (finalResponse
           (fst (translateChunks ([textChunk ''A'', textChunk ''B''] @ [finishChunk ''stop''])
                   exampleState)))
       = Some (Some ''AB'')
   \<and> outputItems
        (snd (translateChunks ([textChunk ''A'', textChunk ''B''] @ [finishChunk ''stop''])
                exampleState))
       = [OutputMessage ''msg_aaaaaaaaaaaaaaaaaaaaaaaa'' Completed [OutputText ''AB'']]"
proof -
  have fresh: "\<not> messageStarted exampleState" "accumulatedText exampleState = []"
    "totalAccumulatedText exampleState = []" "accumulatedToolCalls exampleState = []"
    "outputItems exampleState = []"
    by (simp_all add: example_defs)
  have rnd: "randomHex exampleState 0 = ''aaaaaaaaaaaaaaaaaaaaaaaa''"
    by (simp add: example_defs)
  have deltas: "list_all (\<lambda>c. textOnly c \<and> \<not> finishes c) [textChunk ''A'', textChunk ''B'']"
    by (simp add: textOnly_def finishes_def example_defs)
  have fin: "textOnly (finishChunk ''stop'')" "finishes (finishChunk ''stop'')"
    by (simp_all add: textOnly_def finishes_def example_defs)
  have cat: "concat (map textOf ([textChunk ''A'', textChunk ''B''] @ [finishChunk ''stop'']))
               = ''AB''"
    by (simp add: textOf_def example_defs or_empty_def)
  show ?thesis
    using text_only_stream_aggregate
            [OF fresh deltas fin,
             of "fst (translateChunks ([textChunk ''A'', textChunk ''B''] @ [finishChunk ''stop''])
                        exampleState)"
                "snd (translateChunks ([textChunk ''A'', textChunk ''B''] @ [finishChunk ''stop''])
                        exampleState)"]
          fresh deltas fin
    unfolding cat rnd by auto
qed

text \<open>
  The claim as stated fails for a stream whose only text delta carries the empty string,
  and for a stream that holds the finish chunk alone: no message item is produced and
  output_text is null.
\<close>

theorem empty_text_stream_counterexample:
  "textOnly (textChunk []) \<and> \<not> finishes (textChunk [])
   \<and> content (delta (textChoice [])) = Some []
   \<and> textOnly (finishChunk ''stop'') \<and> finishes (finishChunk ''stop'')
   \<and> outputItems (snd (translateChunks [textChunk [], finishChunk ''stop''] exampleState)) = []
   \<and> map_option output_text
        (finalResponse (fst (translateChunks [textChunk [], finishChunk ''stop''] exampleState)))
       = Some None
   \<and> outputItems (snd (translateChunks [finishChunk ''stop''] exampleState)) = []
   \<and> map_option output_text
        (finalResponse (fst (translateChunks [finishChunk ''stop''] exampleState)))
       = Some None"
  by (simp add: textOnly_def finishes_def finalResponse_def example_defs responses_defs Let_def)

end
